theory Spec2Isabelle
  imports Complex_Main "HOL-Library.AList" "HOL-Library.Sublist"
begin

section \<open>Values, rows and schemas\<close>

text \<open>
  The two engines are the class \<open>MDB\<close> of \<open>maestrodatabase_terminal.py\<close> and the class
  \<open>MDB\<close> of \<open>maestrodatabase_gui.py\<close>. A row is a Python dict from column names to
  scalar values; the values are the ones JSON and the spec's data model know: \<open>None\<close>,
  \<open>bool\<close>, \<open>int\<close> (unbounded), \<open>float\<close> and \<open>str\<close>. A float is represented by the
  rational number it denotes (nan and the infinities are not represented). A dict is an
  association list in insertion order whose keys are pairwise distinct; a lookup reads the
  first binding of a key.

  Rows are values: every slot of a row sequence owns its dict, as it does for rows that come
  from \<open>json.load\<close> or \<open>deepcopy\<close>. Two slots that alias one dict object are not
  represented. The alias that the repository's own callers make, a conditions argument of
  \<open>update\<close> that is a row object of the table, is represented (\<open>conds\<close> below).
\<close>

datatype val = VNone | VBool bool | VInt int | VFloat rat | VStr string

type_synonym row = "(string \<times> val) list"

text \<open>The type objects a schema may hold; \<open>None\<close> in a schema is \<open>None :: pytype option\<close>.\<close>

datatype pytype = Py_int | Py_float | Py_str | Py_bool

type_synonym schema = "(string \<times> pytype option) list"

text \<open>\<open>isinstance(v, dtype)\<close>: in Python \<open>bool\<close> is a subclass of \<open>int\<close>.\<close>

fun isinstance :: "val \<Rightarrow> pytype \<Rightarrow> bool" where
  "isinstance (VInt i) Py_int = True"
| "isinstance (VBool b) Py_int = True"
| "isinstance (VFloat r) Py_float = True"
| "isinstance (VStr s) Py_str = True"
| "isinstance (VBool b) Py_bool = True"
| "isinstance v ty = False"

text \<open>\<open>dtype.__name__\<close>.\<close>

fun type_name :: "pytype \<Rightarrow> string" where
  "type_name Py_int = ''int''"
| "type_name Py_float = ''float''"
| "type_name Py_str = ''str''"
| "type_name Py_bool = ''bool''"

text \<open>
  Python's \<open>==\<close> on scalars: \<open>bool\<close>, \<open>int\<close> and \<open>float\<close> compare by numeric value
  (\<open>True == 1\<close>, \<open>1 == 1.0\<close>), strings by content, \<open>None\<close> equals only \<open>None\<close>.
\<close>

fun num_of :: "val \<Rightarrow> rat option" where
  "num_of (VBool b) = Some (if b then 1 else 0)"
| "num_of (VInt i) = Some (of_int i)"
| "num_of (VFloat r) = Some r"
| "num_of v = None"

definition py_eq :: "val \<Rightarrow> val \<Rightarrow> bool" where
  "py_eq a b =
     (case (num_of a, num_of b) of
        (Some x, Some y) \<Rightarrow> x = y
      | (None, None) \<Rightarrow> a = b
      | _ \<Rightarrow> False)"

text \<open>\<open>record.get(k)\<close>: the value of the column, \<open>None\<close> when the column is absent.\<close>

definition dict_get :: "row \<Rightarrow> string \<Rightarrow> val" where
  "dict_get r k = (case map_of r k of None \<Rightarrow> VNone | Some v \<Rightarrow> v)"

text \<open>\<open>all(record.get(k) == v for k, v in conditions.items())\<close>.\<close>

definition matches :: "row \<Rightarrow> row \<Rightarrow> bool" where
  "matches conditions r = list_all (\<lambda>(k, v). py_eq (dict_get r k) v) conditions"

section \<open>Paths\<close>

text \<open>
  \<open>_path(table_name)\<close> is the file of a table; \<open>backup_table\<close> appends
  \<open>.backup.<timestamp>\<close> to it. The file store is indexed by these two kinds of path.
\<close>

datatype path = Table_file string | Backup_file string string

definition path_of :: "string \<Rightarrow> path" where
  "path_of table_name = Table_file table_name"

section \<open>Errors\<close>

text \<open>
  One constructor for each \<open>raise\<close> of the two classes and for the host's own exceptions
  that the modelled paths can meet; \<open>exception_class\<close> gives the Python class raised.
  \<open>Cannot_open\<close> is the \<open>OSError\<close> (\<open>FileNotFoundError\<close>, \<open>PermissionError\<close>, ...)
  of an \<open>open(path, "w")\<close> that fails; \<open>Keyword_collision\<close> is the \<open>TypeError\<close> of a
  call that passes \<open>self\<close> or \<open>table_name\<close> a second time among the keyword
  arguments.
\<close>

datatype error =
    Table_not_exist string
  | Table_already_exists string
  | Missing_column string
  | Column_must_be_of_type string pytype
  | Duplicate_entry string val
  | Unsupported_format
  | No_saved_table string
  | Key_error string
  | Attribute_error string
  | Json_decode_error
  | Cannot_open path
  | Keyword_collision

datatype exception =
  ValueError | TypeError | FileNotFoundError | KeyError | AttributeError | OSError

fun exception_class :: "error \<Rightarrow> exception" where
  "exception_class (Table_not_exist t) = ValueError"
| "exception_class (Table_already_exists t) = ValueError"
| "exception_class (Missing_column c) = ValueError"
| "exception_class (Column_must_be_of_type c ty) = TypeError"
| "exception_class (Duplicate_entry k v) = ValueError"
| "exception_class Unsupported_format = ValueError"
| "exception_class (No_saved_table t) = FileNotFoundError"
| "exception_class (Key_error t) = KeyError"
| "exception_class (Attribute_error a) = AttributeError"
| "exception_class Json_decode_error = ValueError"
| "exception_class (Cannot_open p) = OSError"
| "exception_class Keyword_collision = TypeError"

section \<open>Files\<close>

text \<open>
  A file holds the JSON document that \<open>json.dump\<close> wrote and \<open>json.load\<close> reads back:
  the text layout (\<open>indent=2\<close>) is not represented. \<open>Truncated\<close> is the empty file that
  \<open>open(path, "w")\<close> leaves when the body of the \<open>with\<close> raises before writing.
\<close>

datatype json =
    JNull | JBool bool | JInt int | JFloat rat | JStr string
  | JArr "json list" | JObj "(string \<times> json) list"

datatype stored = Doc json | Truncated

fun val_json :: "val \<Rightarrow> json" where
  "val_json VNone = JNull"
| "val_json (VBool b) = JBool b"
| "val_json (VInt i) = JInt i"
| "val_json (VFloat r) = JFloat r"
| "val_json (VStr s) = JStr s"

definition row_json :: "row \<Rightarrow> json" where
  "row_json r = JObj (map (\<lambda>(k, v). (k, val_json v)) r)"

definition rows_json :: "row list \<Rightarrow> json" where
  "rows_json rs = JArr (map row_json rs)"

text \<open>
  What \<open>json.load\<close> hands over for a document that is a sequence of rows. A document
  whose rows are not objects of scalars has no row sequence in this model (\<open>None\<close>).
\<close>

fun json_val :: "json \<Rightarrow> val option" where
  "json_val JNull = Some VNone"
| "json_val (JBool b) = Some (VBool b)"
| "json_val (JInt i) = Some (VInt i)"
| "json_val (JFloat r) = Some (VFloat r)"
| "json_val (JStr s) = Some (VStr s)"
| "json_val j = None"

fun json_row :: "json \<Rightarrow> row option" where
  "json_row (JObj kvs) = those (map (\<lambda>(k, j). map_option (Pair k) (json_val j)) kvs)"
| "json_row j = None"

fun json_rows :: "json \<Rightarrow> row list option" where
  "json_rows (JArr xs) = those (map json_row xs)"
| "json_rows j = None"

section \<open>The state of an engine\<close>

text \<open>
  The three dicts of an \<open>MDB\<close> object (\<open>tables\<close>, \<open>schemas\<close>, \<open>_transactions\<close>), the
  files of its data folder and the lines it has printed. \<open>print\<close> appends one message;
  the message keeps the values the \<open>f\<close>-string formats, not the text.

  \<open>unwritable\<close> is the part of the environment that decides whether a file can be
  opened for writing: \<open>open(path, "w")\<close> raises for the paths in it (a table name such as
  \<open>a/b\<close>, whose folder does not exist, or a file without write permission) and succeeds
  for the others. Reading and removing a file that exists are taken to succeed, and
  \<open>json.dump\<close> to complete on every value that a row holds.
\<close>

datatype msg =
    Created string "schema option"
  | Loaded string
  | Dropped string
  | Inserted string row
  | Updated nat string
  | Deleted nat string
  | Backup_created string path
  | Transaction_started string
  | Transaction_rolled_back string
  | Transaction_committed string
  | No_active_transaction string

record mdb =
  tables :: "string \<rightharpoonup> row list"
  schemas :: "string \<rightharpoonup> schema"
  transactions :: "string \<rightharpoonup> row list"
  disk :: "path \<rightharpoonup> stored"
  console :: "msg list"
  unwritable :: "path set"

definition py_print :: "msg \<Rightarrow> mdb \<Rightarrow> mdb" where
  "py_print m s = s\<lparr>console := console s @ [m]\<rparr>"

text \<open>What a call returns: \<open>None\<close>, a count or a list of rows.\<close>

datatype ret = RNone | RInt nat | RRows "row list"

text \<open>
  A call ends with a value or an exception, and with the state it has reached: an
  exception does not undo what was assigned before it.
\<close>

type_synonym outcome = "(error + ret) \<times> mdb"

text \<open>\<open>MDB()\<close> on an empty data folder in which every file can be written.\<close>

definition init :: mdb where
  "init = \<lparr>tables = Map.empty, schemas = Map.empty, transactions = Map.empty,
           disk = Map.empty, console = [], unwritable = {}\<rparr>"

section \<open>The terminal engine (\<open>maestrodatabase_terminal.py\<close>)\<close>

definition check_table_exists :: "string \<Rightarrow> mdb \<Rightarrow> error + unit" where
  "check_table_exists table_name s =
     (if table_name \<notin> dom (tables s) then Inl (Table_not_exist table_name) else Inr ())"

fun validate_columns_terminal :: "schema \<Rightarrow> row \<Rightarrow> error + unit" where
  "validate_columns_terminal [] rec = Inr ()"
| "validate_columns_terminal ((col, dtype) # rest) rec =
     (case map_of rec col of
        None \<Rightarrow> Inl (Missing_column col)
      | Some v \<Rightarrow>
          (case dtype of
             None \<Rightarrow> validate_columns_terminal rest rec
           | Some ty \<Rightarrow>
               if \<not> isinstance v ty then
                 (if v \<noteq> VNone then Inl (Column_must_be_of_type col ty)
                  else validate_columns_terminal rest rec)
               else validate_columns_terminal rest rec))"

definition validate_record_terminal :: "string \<Rightarrow> row \<Rightarrow> mdb \<Rightarrow> error + unit" where
  "validate_record_terminal table_name rec s =
     (case schemas s table_name of
        None \<Rightarrow> Inr ()
      | Some schema \<Rightarrow> validate_columns_terminal schema rec)"

text \<open>
  \<open>_save\<close> opens the file for writing, which may fail, and then dumps
  \<open>self.tables[table_name]\<close>: the bare list of rows. When the table is missing the lookup
  raises \<open>KeyError\<close> after the file has been opened, which leaves it empty.
\<close>

definition save_terminal :: "string \<Rightarrow> mdb \<Rightarrow> (error + unit) \<times> mdb" where
  "save_terminal table_name s =
     (if path_of table_name \<in> unwritable s then (Inl (Cannot_open (path_of table_name)), s)
      else
        (case tables s table_name of
           None \<Rightarrow>
             (Inl (Key_error table_name),
              s\<lparr>disk := (disk s)(path_of table_name \<mapsto> Truncated)\<rparr>)
         | Some rows \<Rightarrow>
             (Inr (), s\<lparr>disk := (disk s)(path_of table_name \<mapsto> Doc (rows_json rows))\<rparr>)))"

text \<open>\<open>if schema:\<close> holds for a dict that is not empty.\<close>

definition truthy_schema :: "schema option \<Rightarrow> bool" where
  "truthy_schema schema = (schema \<noteq> None \<and> schema \<noteq> Some [])"

definition create_table_terminal :: "string \<Rightarrow> schema option \<Rightarrow> mdb \<Rightarrow> outcome" where
  "create_table_terminal table_name schema s =
     (if table_name \<in> dom (tables s) then (Inl (Table_already_exists table_name), s)
      else
        let s1 = s\<lparr>tables := (tables s)(table_name \<mapsto> [])\<rparr>;
            s2 = (if truthy_schema schema
                  then s1\<lparr>schemas := (schemas s1)(table_name \<mapsto> the schema)\<rparr> else s1)
        in case save_terminal table_name s2 of
             (Inl e, s3) \<Rightarrow> (Inl e, s3)
           | (Inr u, s3) \<Rightarrow> (Inr RNone, py_print (Created table_name schema) s3))"

text \<open>
  \<open>load_table\<close> stores whatever \<open>json.load\<close> returns, with no look at its shape and no
  schema. The result is \<open>None\<close> for a document that is not a sequence of rows: the engine
  then holds a value that this model's \<open>tables\<close> cannot.
\<close>

definition load_table_terminal :: "string \<Rightarrow> mdb \<Rightarrow> outcome option" where
  "load_table_terminal table_name s =
     (case disk s (path_of table_name) of
        None \<Rightarrow> Some (Inl (No_saved_table table_name), s)
      | Some Truncated \<Rightarrow> Some (Inl Json_decode_error, s)
      | Some (Doc data) \<Rightarrow>
          (case json_rows data of
             None \<Rightarrow> None
           | Some rows \<Rightarrow>
               Some (Inr RNone,
                 py_print (Loaded table_name) (s\<lparr>tables := (tables s)(table_name \<mapsto> rows)\<rparr>))))"

definition drop_table_terminal :: "string \<Rightarrow> mdb \<Rightarrow> outcome" where
  "drop_table_terminal table_name s =
     (case check_table_exists table_name s of
        Inl e \<Rightarrow> (Inl e, s)
      | Inr u \<Rightarrow>
          (Inr RNone,
           py_print (Dropped table_name)
             (s\<lparr>tables := (tables s)(table_name := None),
                schemas := (schemas s)(table_name := None),
                disk := (disk s)(path_of table_name := None)\<rparr>)))"

text \<open>\<open>if key_column:\<close> holds for a string that is not empty.\<close>

definition truthy_key :: "string option \<Rightarrow> bool" where
  "truthy_key key_column = (key_column \<noteq> None \<and> key_column \<noteq> Some [])"

text \<open>The duplicate scan: the first existing row with an equal key value raises.\<close>

fun find_duplicate :: "string \<Rightarrow> row \<Rightarrow> row list \<Rightarrow> error option" where
  "find_duplicate key_column rec [] = None"
| "find_duplicate key_column rec (existing # rest) =
     (if py_eq (dict_get existing key_column) (dict_get rec key_column)
      then Some (Duplicate_entry key_column (dict_get rec key_column))
      else find_duplicate key_column rec rest)"

definition insert_terminal :: "string \<Rightarrow> row \<Rightarrow> string option \<Rightarrow> mdb \<Rightarrow> outcome" where
  "insert_terminal table_name rec key_column s =
     (case check_table_exists table_name s of
        Inl e \<Rightarrow> (Inl e, s)
      | Inr u \<Rightarrow>
     (case validate_record_terminal table_name rec s of
        Inl e \<Rightarrow> (Inl e, s)
      | Inr u \<Rightarrow>
     (case (if truthy_key key_column
            then find_duplicate (the key_column) rec (the (tables s table_name)) else None) of
        Some e \<Rightarrow> (Inl e, s)
      | None \<Rightarrow>
          let s1 = s\<lparr>tables := (tables s)(table_name \<mapsto> the (tables s table_name) @ [rec])\<rparr>
          in case save_terminal table_name s1 of
               (Inl e, s2) \<Rightarrow> (Inl e, s2)
             | (Inr u, s2) \<Rightarrow> (Inr RNone, py_print (Inserted table_name rec) s2))))"

text \<open>
  The conditions of \<open>select\<close> and \<open>delete\<close> are the keyword arguments of the call
  (\<open>def select(self, table_name, **conditions)\<close>, called as
  \<open>db.select(table_name, **filters)\<close>). A condition on a column named \<open>self\<close> or
  \<open>table_name\<close> gives that parameter a second value: the call raises \<open>TypeError\<close>
  before the body runs.
\<close>

definition keyword_clash :: "row \<Rightarrow> bool" where
  "keyword_clash conditions =
     (map_of conditions ''self'' \<noteq> None \<or> map_of conditions ''table_name'' \<noteq> None)"

text \<open>The scan of \<open>select\<close>: \<open>results\<close> grows by each matching row, in order.\<close>

fun select_loop :: "row \<Rightarrow> row list \<Rightarrow> row list \<Rightarrow> row list" where
  "select_loop conditions [] results = results"
| "select_loop conditions (rec # rest) results =
     select_loop conditions rest (if matches conditions rec then results @ [rec] else results)"

definition select_terminal :: "string \<Rightarrow> row \<Rightarrow> mdb \<Rightarrow> outcome" where
  "select_terminal table_name conditions s =
     (if keyword_clash conditions then (Inl Keyword_collision, s)
      else
        (case check_table_exists table_name s of
           Inl e \<Rightarrow> (Inl e, s)
         | Inr u \<Rightarrow> (Inr (RRows (select_loop conditions (the (tables s table_name)) [])), s)))"

text \<open>
  \<open>record[uk] = uv\<close> for every pair of \<open>updates\<close>: a column the row has keeps its place,
  a new one goes last.
\<close>

definition apply_updates :: "row \<Rightarrow> row \<Rightarrow> row" where
  "apply_updates updates rec = fold (\<lambda>(uk, uv). AList.update uk uv) updates rec"

text \<open>
  The conditions argument of \<open>update\<close> is a dict passed by reference: its value and, when
  it is the very dict object that sits in the table (the GUI's edit dialog passes
  \<open>self.db.tables[table_name][row_idx]\<close>), the index of that row. An index at which the
  table holds no row, or a row of another value, cannot be the place of this object: the
  dict is then a dict of its own. The updates argument is a dict of its own.
\<close>

datatype conds = Conds row "nat option"

fun conds_value :: "conds \<Rightarrow> row" where
  "conds_value (Conds v a) = v"

fun aliased_row :: "conds \<Rightarrow> row list \<Rightarrow> nat option" where
  "aliased_row (Conds v None) rows = None"
| "aliased_row (Conds v (Some i)) rows = (if i < length rows \<and> rows ! i = v then Some i else None)"

text \<open>
  The scan of \<open>update\<close>: the rows after the scan and \<open>updated_count\<close>. \<open>j\<close> is the
  index of the row at hand. \<open>record[uk] = uv\<close> writes into the row object; when that
  object is the conditions dict (\<open>alias = Some j\<close>), the rows that follow are compared with
  the rewritten conditions.
\<close>

fun update_loop ::
  "nat option \<Rightarrow> row \<Rightarrow> row \<Rightarrow> row list \<Rightarrow> nat \<Rightarrow> nat \<Rightarrow> row list \<times> nat" where
  "update_loop alias conditions updates [] j updated_count = ([], updated_count)"
| "update_loop alias conditions updates (rec # rest) j updated_count =
     (if matches conditions rec
      then (case update_loop alias
                   (if alias = Some j then apply_updates updates rec else conditions)
                   updates rest (j + 1) (updated_count + 1) of
              (rest', n) \<Rightarrow> (apply_updates updates rec # rest', n))
      else (case update_loop alias conditions updates rest (j + 1) updated_count of
              (rest', n) \<Rightarrow> (rec # rest', n)))"

definition update_terminal :: "string \<Rightarrow> conds \<Rightarrow> row \<Rightarrow> mdb \<Rightarrow> outcome" where
  "update_terminal table_name conditions updates s =
     (case check_table_exists table_name s of
        Inl e \<Rightarrow> (Inl e, s)
      | Inr u \<Rightarrow>
          (case update_loop (aliased_row conditions (the (tables s table_name)))
                  (conds_value conditions) updates (the (tables s table_name)) 0 0 of
             (rows', updated_count) \<Rightarrow>
               (case save_terminal table_name (s\<lparr>tables := (tables s)(table_name \<mapsto> rows')\<rparr>) of
                  (Inl e, s2) \<Rightarrow> (Inl e, s2)
                | (Inr u, s2) \<Rightarrow> (Inr RNone, py_print (Updated updated_count table_name) s2))))"

definition delete_terminal :: "string \<Rightarrow> row \<Rightarrow> mdb \<Rightarrow> outcome" where
  "delete_terminal table_name conditions s =
     (if keyword_clash conditions then (Inl Keyword_collision, s)
      else
     (case check_table_exists table_name s of
        Inl e \<Rightarrow> (Inl e, s)
      | Inr u \<Rightarrow>
          let original_len = length (the (tables s table_name));
              rows' = filter (\<lambda>r. \<not> matches conditions r) (the (tables s table_name));
              s1 = s\<lparr>tables := (tables s)(table_name \<mapsto> rows')\<rparr>;
              deleted_count = original_len - length rows'
          in case save_terminal table_name s1 of
               (Inl e, s2) \<Rightarrow> (Inl e, s2)
             | (Inr u, s2) \<Rightarrow> (Inr RNone, py_print (Deleted deleted_count table_name) s2)))"

text \<open>
  \<open>backup_table\<close>; \<open>stamp\<close> is the text of \<open>datetime.now()\<close>. The backup file is
  opened for writing like the table's file.
\<close>

definition backup_table_terminal :: "string \<Rightarrow> string \<Rightarrow> mdb \<Rightarrow> outcome" where
  "backup_table_terminal table_name stamp s =
     (case check_table_exists table_name s of
        Inl e \<Rightarrow> (Inl e, s)
      | Inr u \<Rightarrow>
          if Backup_file table_name stamp \<in> unwritable s
          then (Inl (Cannot_open (Backup_file table_name stamp)), s)
          else
            (Inr RNone,
             py_print (Backup_created table_name (Backup_file table_name stamp))
               (s\<lparr>disk := (disk s)(Backup_file table_name stamp \<mapsto>
                     Doc (rows_json (the (tables s table_name))))\<rparr>)))"

text \<open>\<open>deepcopy\<close> of a row sequence is the same value.\<close>

definition begin_transaction_terminal :: "string \<Rightarrow> mdb \<Rightarrow> outcome" where
  "begin_transaction_terminal table_name s =
     (case check_table_exists table_name s of
        Inl e \<Rightarrow> (Inl e, s)
      | Inr u \<Rightarrow>
          (Inr RNone,
           py_print (Transaction_started table_name)
             (s\<lparr>transactions := (transactions s)(table_name \<mapsto> the (tables s table_name))\<rparr>)))"

definition rollback_terminal :: "string \<Rightarrow> mdb \<Rightarrow> outcome" where
  "rollback_terminal table_name s =
     (case transactions s table_name of
        Some snapshot \<Rightarrow>
          (Inr RNone,
           py_print (Transaction_rolled_back table_name)
             (s\<lparr>tables := (tables s)(table_name \<mapsto> snapshot),
                transactions := (transactions s)(table_name := None)\<rparr>))
      | None \<Rightarrow> (Inr RNone, py_print (No_active_transaction table_name) s))"

definition commit_terminal :: "string \<Rightarrow> mdb \<Rightarrow> outcome" where
  "commit_terminal table_name s =
     (case transactions s table_name of
        Some snapshot \<Rightarrow>
          (case save_terminal table_name
                  (s\<lparr>transactions := (transactions s)(table_name := None)\<rparr>) of
             (Inl e, s2) \<Rightarrow> (Inl e, s2)
           | (Inr u, s2) \<Rightarrow> (Inr RNone, py_print (Transaction_committed table_name) s2))
      | None \<Rightarrow> (Inr RNone, py_print (No_active_transaction table_name) s))"

section \<open>The GUI engine (\<open>maestrodatabase_gui.py\<close>)\<close>

text \<open>\<open>_check_table_exists\<close> is the same code in both classes.\<close>

fun validate_columns_gui :: "schema \<Rightarrow> row \<Rightarrow> error + unit" where
  "validate_columns_gui [] rec = Inr ()"
| "validate_columns_gui ((col, dtype) # rest) rec =
     (case map_of rec col of
        None \<Rightarrow> Inl (Missing_column col)
      | Some v \<Rightarrow>
          (case dtype of
             None \<Rightarrow> validate_columns_gui rest rec
           | Some ty \<Rightarrow>
               if v \<noteq> VNone \<and> \<not> isinstance v ty then Inl (Column_must_be_of_type col ty)
               else validate_columns_gui rest rec))"

definition validate_record_gui :: "string \<Rightarrow> row \<Rightarrow> mdb \<Rightarrow> error + unit" where
  "validate_record_gui table_name rec s =
     (case schemas s table_name of
        None \<Rightarrow> Inr ()
      | Some schema \<Rightarrow> validate_columns_gui schema rec)"

text \<open>\<open>{k: v.__name__ if v else None for k, v in schema.items()}\<close>.\<close>

definition schema_json :: "schema \<Rightarrow> json" where
  "schema_json schema =
     JObj (map (\<lambda>(k, v). (k, case v of Some ty \<Rightarrow> JStr (type_name ty) | None \<Rightarrow> JNull)) schema)"

text \<open>
  \<open>_save\<close> builds the object with the fields \<open>schema\<close> and \<open>rows\<close> first (a missing table
  raises \<open>KeyError\<close> there) and opens the file afterwards, which may fail.
\<close>

definition current_doc :: "schema \<Rightarrow> row list \<Rightarrow> json" where
  "current_doc schema rows = JObj [(''schema'', schema_json schema), (''rows'', rows_json rows)]"

definition save_gui :: "string \<Rightarrow> mdb \<Rightarrow> (error + unit) \<times> mdb" where
  "save_gui table_name s =
     (case tables s table_name of
        None \<Rightarrow> (Inl (Key_error table_name), s)
      | Some rows \<Rightarrow>
          if path_of table_name \<in> unwritable s then (Inl (Cannot_open (path_of table_name)), s)
          else
            (Inr (),
             s\<lparr>disk := (disk s)(path_of table_name \<mapsto>
                  Doc (current_doc (case schemas s table_name of None \<Rightarrow> [] | Some sch \<Rightarrow> sch)
                         rows))\<rparr>))"

definition create_table_gui :: "string \<Rightarrow> schema option \<Rightarrow> mdb \<Rightarrow> outcome" where
  "create_table_gui table_name schema s =
     (if table_name \<in> dom (tables s) then (Inl (Table_already_exists table_name), s)
      else
        let s1 = s\<lparr>tables := (tables s)(table_name \<mapsto> [])\<rparr>;
            s2 = (if truthy_schema schema
                  then s1\<lparr>schemas := (schemas s1)(table_name \<mapsto> the schema)\<rparr> else s1)
        in case save_gui table_name s2 of
             (Inl e, s3) \<Rightarrow> (Inl e, s3)
           | (Inr u, s3) \<Rightarrow> (Inr RNone, s3))"

text \<open>The first row's values decide the inferred schema of an old-format file.\<close>

definition infer_type :: "val \<Rightarrow> pytype option" where
  "infer_type v =
     (if isinstance v Py_int then Some Py_int
      else if isinstance v Py_float then Some Py_float
      else if isinstance v Py_str then Some Py_str
      else None)"

text \<open>The kind names a current-format file may hold; \<open>v == "int"\<close> compares any value.\<close>

definition type_of_name :: "json \<Rightarrow> pytype option" where
  "type_of_name v =
     (if v = JStr ''int'' then Some Py_int
      else if v = JStr ''float'' then Some Py_float
      else if v = JStr ''str'' then Some Py_str
      else None)"

text \<open>\<open>data.get(key, default)\<close> on the loaded object.\<close>

definition json_get :: "(string \<times> json) list \<Rightarrow> string \<Rightarrow> json \<Rightarrow> json" where
  "json_get kvs key dflt = (case map_of kvs key of None \<Rightarrow> dflt | Some j \<Rightarrow> j)"

text \<open>
  The branches of \<open>load_table\<close> on the loaded value. In the list branch the rows are
  stored and a schema is inferred from the first one; in the dict branch the schema is read
  first (\<open>schema_data.items()\<close> raises \<open>AttributeError\<close> when the field is not an object),
  then the rows are stored. The result is \<open>None\<close> where the value stored would not be a
  sequence of rows of scalars.
\<close>

fun load_data_gui :: "string \<Rightarrow> json \<Rightarrow> mdb \<Rightarrow> outcome option" where
  "load_data_gui table_name (JArr xs) s =
     (case json_rows (JArr xs) of
        None \<Rightarrow> None
      | Some rows \<Rightarrow>
          Some (Inr RNone,
            s\<lparr>tables := (tables s)(table_name \<mapsto> rows),
              schemas := (schemas s)(table_name \<mapsto>
                (case rows of [] \<Rightarrow> [] | first # others \<Rightarrow> map (\<lambda>(k, v). (k, infer_type v)) first))\<rparr>))"
| "load_data_gui table_name (JObj kvs) s =
     (case json_get kvs ''schema'' (JObj []) of
        JObj schema_data \<Rightarrow>
          (case json_rows (json_get kvs ''rows'' (JArr [])) of
             None \<Rightarrow> None
           | Some rows \<Rightarrow>
               Some (Inr RNone,
                 s\<lparr>schemas := (schemas s)(table_name \<mapsto> map (\<lambda>(k, v). (k, type_of_name v)) schema_data),
                   tables := (tables s)(table_name \<mapsto> rows)\<rparr>))
      | other \<Rightarrow> Some (Inl (Attribute_error ''items''), s))"
| "load_data_gui table_name data s = Some (Inl Unsupported_format, s)"

definition load_table_gui :: "string \<Rightarrow> mdb \<Rightarrow> outcome option" where
  "load_table_gui table_name s =
     (case disk s (path_of table_name) of
        None \<Rightarrow> Some (Inl (No_saved_table table_name), s)
      | Some Truncated \<Rightarrow> Some (Inl Json_decode_error, s)
      | Some (Doc data) \<Rightarrow> load_data_gui table_name data s)"

definition drop_table_gui :: "string \<Rightarrow> mdb \<Rightarrow> outcome" where
  "drop_table_gui table_name s =
     (case check_table_exists table_name s of
        Inl e \<Rightarrow> (Inl e, s)
      | Inr u \<Rightarrow>
          (Inr RNone,
           s\<lparr>tables := (tables s)(table_name := None),
             schemas := (schemas s)(table_name := None),
             disk := (disk s)(path_of table_name := None)\<rparr>))"

definition insert_gui :: "string \<Rightarrow> row \<Rightarrow> string option \<Rightarrow> mdb \<Rightarrow> outcome" where
  "insert_gui table_name rec key_column s =
     (case check_table_exists table_name s of
        Inl e \<Rightarrow> (Inl e, s)
      | Inr u \<Rightarrow>
     (case validate_record_gui table_name rec s of
        Inl e \<Rightarrow> (Inl e, s)
      | Inr u \<Rightarrow>
     (case (if truthy_key key_column
            then find_duplicate (the key_column) rec (the (tables s table_name)) else None) of
        Some e \<Rightarrow> (Inl e, s)
      | None \<Rightarrow>
          let s1 = s\<lparr>tables := (tables s)(table_name \<mapsto> the (tables s table_name) @ [rec])\<rparr>
          in case save_gui table_name s1 of
               (Inl e, s2) \<Rightarrow> (Inl e, s2)
             | (Inr u, s2) \<Rightarrow> (Inr RNone, s2))))"

definition update_gui :: "string \<Rightarrow> conds \<Rightarrow> row \<Rightarrow> mdb \<Rightarrow> outcome" where
  "update_gui table_name conditions updates s =
     (case check_table_exists table_name s of
        Inl e \<Rightarrow> (Inl e, s)
      | Inr u \<Rightarrow>
          (case update_loop (aliased_row conditions (the (tables s table_name)))
                  (conds_value conditions) updates (the (tables s table_name)) 0 0 of
             (rows', updated_count) \<Rightarrow>
               (case save_gui table_name (s\<lparr>tables := (tables s)(table_name \<mapsto> rows')\<rparr>) of
                  (Inl e, s2) \<Rightarrow> (Inl e, s2)
                | (Inr u, s2) \<Rightarrow> (Inr (RInt updated_count), s2))))"

definition delete_gui :: "string \<Rightarrow> row \<Rightarrow> mdb \<Rightarrow> outcome" where
  "delete_gui table_name conditions s =
     (if keyword_clash conditions then (Inl Keyword_collision, s)
      else
     (case check_table_exists table_name s of
        Inl e \<Rightarrow> (Inl e, s)
      | Inr u \<Rightarrow>
          let original_len = length (the (tables s table_name));
              rows' = filter (\<lambda>r. \<not> matches conditions r) (the (tables s table_name));
              s1 = s\<lparr>tables := (tables s)(table_name \<mapsto> rows')\<rparr>;
              deleted_count = original_len - length rows'
          in case save_gui table_name s1 of
               (Inl e, s2) \<Rightarrow> (Inl e, s2)
             | (Inr u, s2) \<Rightarrow> (Inr (RInt deleted_count), s2)))"

definition backup_table_gui :: "string \<Rightarrow> string \<Rightarrow> mdb \<Rightarrow> outcome" where
  "backup_table_gui table_name stamp s =
     (case check_table_exists table_name s of
        Inl e \<Rightarrow> (Inl e, s)
      | Inr u \<Rightarrow>
          if Backup_file table_name stamp \<in> unwritable s
          then (Inl (Cannot_open (Backup_file table_name stamp)), s)
          else
            (Inr RNone,
             s\<lparr>disk := (disk s)(Backup_file table_name stamp \<mapsto>
                  Doc (current_doc (case schemas s table_name of None \<Rightarrow> [] | Some sch \<Rightarrow> sch)
                         (the (tables s table_name))))\<rparr>))"

definition begin_transaction_gui :: "string \<Rightarrow> mdb \<Rightarrow> outcome" where
  "begin_transaction_gui table_name s =
     (case check_table_exists table_name s of
        Inl e \<Rightarrow> (Inl e, s)
      | Inr u \<Rightarrow>
          (Inr RNone,
           s\<lparr>transactions := (transactions s)(table_name \<mapsto> the (tables s table_name))\<rparr>))"

definition rollback_gui :: "string \<Rightarrow> mdb \<Rightarrow> outcome" where
  "rollback_gui table_name s =
     (case transactions s table_name of
        Some snapshot \<Rightarrow>
          (Inr RNone,
           s\<lparr>tables := (tables s)(table_name \<mapsto> snapshot),
             transactions := (transactions s)(table_name := None)\<rparr>)
      | None \<Rightarrow> (Inr RNone, s))"

definition commit_gui :: "string \<Rightarrow> mdb \<Rightarrow> outcome" where
  "commit_gui table_name s =
     (case transactions s table_name of
        Some snapshot \<Rightarrow>
          (case save_gui table_name (s\<lparr>transactions := (transactions s)(table_name := None)\<rparr>) of
             (Inl e, s2) \<Rightarrow> (Inl e, s2)
           | (Inr u, s2) \<Rightarrow> (Inr RNone, s2))
      | None \<Rightarrow> (Inr RNone, s))"

section \<open>Calls of a client\<close>

text \<open>
  The methods a client may call on an engine, with their arguments. The GUI class defines
  no \<open>select\<close>: calling it raises \<open>AttributeError\<close>. \<open>export_csv\<close> writes a CSV text to
  a path of the caller's choice and is left out.
\<close>

datatype op =
    Create_table string "schema option"
  | Load_table string
  | Drop_table string
  | Insert string row "string option"
  | Select string row
  | Update string conds row
  | Delete string row
  | Backup_table string string
  | Begin_transaction string
  | Rollback string
  | Commit string

fun exec_terminal :: "op \<Rightarrow> mdb \<Rightarrow> outcome option" where
  "exec_terminal (Create_table t schema) s = Some (create_table_terminal t schema s)"
| "exec_terminal (Load_table t) s = load_table_terminal t s"
| "exec_terminal (Drop_table t) s = Some (drop_table_terminal t s)"
| "exec_terminal (Insert t rec key_column) s = Some (insert_terminal t rec key_column s)"
| "exec_terminal (Select t conditions) s = Some (select_terminal t conditions s)"
| "exec_terminal (Update t conditions updates) s = Some (update_terminal t conditions updates s)"
| "exec_terminal (Delete t conditions) s = Some (delete_terminal t conditions s)"
| "exec_terminal (Backup_table t stamp) s = Some (backup_table_terminal t stamp s)"
| "exec_terminal (Begin_transaction t) s = Some (begin_transaction_terminal t s)"
| "exec_terminal (Rollback t) s = Some (rollback_terminal t s)"
| "exec_terminal (Commit t) s = Some (commit_terminal t s)"

fun exec_gui :: "op \<Rightarrow> mdb \<Rightarrow> outcome option" where
  "exec_gui (Create_table t schema) s = Some (create_table_gui t schema s)"
| "exec_gui (Load_table t) s = load_table_gui t s"
| "exec_gui (Drop_table t) s = Some (drop_table_gui t s)"
| "exec_gui (Insert t rec key_column) s = Some (insert_gui t rec key_column s)"
| "exec_gui (Select t conditions) s = Some (Inl (Attribute_error ''select''), s)"
| "exec_gui (Update t conditions updates) s = Some (update_gui t conditions updates s)"
| "exec_gui (Delete t conditions) s = Some (delete_gui t conditions s)"
| "exec_gui (Backup_table t stamp) s = Some (backup_table_gui t stamp s)"
| "exec_gui (Begin_transaction t) s = Some (begin_transaction_gui t s)"
| "exec_gui (Rollback t) s = Some (rollback_gui t s)"
| "exec_gui (Commit t) s = Some (commit_gui t s)"

text \<open>
  A client that makes the calls one after the other and goes on after an exception (the
  REPL, the web API and the GUI all catch it): the state after the last call.
\<close>

fun run_terminal :: "op list \<Rightarrow> mdb \<Rightarrow> mdb option" where
  "run_terminal [] s = Some s"
| "run_terminal (c # cs) s =
     (case exec_terminal c s of None \<Rightarrow> None | Some (out, s') \<Rightarrow> run_terminal cs s')"

fun run_gui :: "op list \<Rightarrow> mdb \<Rightarrow> mdb option" where
  "run_gui [] s = Some s"
| "run_gui (c # cs) s =
     (case exec_gui c s of None \<Rightarrow> None | Some (out, s') \<Rightarrow> run_gui cs s')"

text \<open>The row mutations: \<open>insert\<close>, \<open>update\<close> and \<open>delete\<close>, on any table.\<close>

fun is_row_mutation :: "op \<Rightarrow> bool" where
  "is_row_mutation (Insert t rec key_column) = True"
| "is_row_mutation (Update t conditions updates) = True"
| "is_row_mutation (Delete t conditions) = True"
| "is_row_mutation c = False"

section \<open>Shapes that the properties name\<close>

text \<open>
  The current shape of a file for a row sequence, as the specification words it: an
  object with the field \<open>schema\<close>, an object that maps columns to a kind name or
  \<open>null\<close>, and the field \<open>rows\<close>, the row sequence.
\<close>

fun is_kind_name_or_null :: "json \<Rightarrow> bool" where
  "is_kind_name_or_null JNull = True"
| "is_kind_name_or_null (JStr n) = (n \<in> set [''int'', ''float'', ''str'', ''bool''])"
| "is_kind_name_or_null j = False"

fun is_current_shape :: "json \<Rightarrow> row list \<Rightarrow> bool" where
  "is_current_shape (JObj [(k1, JObj columns), (k2, rs)]) rows =
     (k1 = ''schema'' \<and> k2 = ''rows''
      \<and> list_all (\<lambda>(c, v). is_kind_name_or_null v) columns \<and> rs = rows_json rows)"
| "is_current_shape j rows = False"

text \<open>
  The kind that the inference on an old-format file gives to a value of the first row,
  stated by cases on the value: Integer for an integer and for a Boolean, Float for a
  float, Text for a string, none (any) for \<open>null\<close>.
\<close>

fun inferred_kind :: "val \<Rightarrow> pytype option" where
  "inferred_kind (VInt i) = Some Py_int"
| "inferred_kind (VBool b) = Some Py_int"
| "inferred_kind (VFloat r) = Some Py_float"
| "inferred_kind (VStr x) = Some Py_str"
| "inferred_kind VNone = None"

text \<open>
  The table a file belongs to, and: the file at path \<open>p\<close> holds the current shape of
  the live rows of its table.
\<close>

fun table_of :: "path \<Rightarrow> string" where
  "table_of (Table_file table_name) = table_name"
| "table_of (Backup_file table_name stamp) = table_name"

definition written_current :: "mdb \<Rightarrow> path \<Rightarrow> bool" where
  "written_current s p =
     (case disk s p of
        Some (Doc d) \<Rightarrow>
          (case tables s (table_of p) of
             Some rows \<Rightarrow> is_current_shape d rows
           | None \<Rightarrow> False)
      | other \<Rightarrow> False)"

text \<open>The in-memory state of an engine: its three dicts.\<close>

definition in_memory ::
  "mdb \<Rightarrow> (string \<rightharpoonup> row list) \<times> (string \<rightharpoonup> schema) \<times> (string \<rightharpoonup> row list)" where
  "in_memory s = (tables s, schemas s, transactions s)"

text \<open>
  Two outcomes agree in memory: they leave the same three dicts, and one raises an
  exception exactly when the other raises the same one.
\<close>

definition agree :: "outcome \<Rightarrow> outcome \<Rightarrow> bool" where
  "agree a b \<longleftrightarrow>
     in_memory (snd a) = in_memory (snd b) \<and> (\<forall>e. fst a = Inl e \<longleftrightarrow> fst b = Inl e)"

section \<open>Validation of a record against the schema\<close>

lemma map_of_update_col:
  "map_of (AList.update c v rec) col = (if col = c then Some v else map_of rec col)"
  by (simp add: AList.update_conv')

lemma validate_columns_terminal_bool_int:
  "\<forall>ty. (c, ty) \<in> set sch \<longrightarrow> ty = Some Py_int \<or> ty = None \<Longrightarrow>
   validate_columns_terminal sch (AList.update c (VBool b) rec) =
   validate_columns_terminal sch (AList.update c (VInt i) rec)"
proof (induction sch)
  case Nil
  then show ?case by simp
next
  case (Cons p sch)
  obtain col dtype where p: "p = (col, dtype)" by (cases p)
  from Cons.prems have rest: "\<forall>ty. (c, ty) \<in> set sch \<longrightarrow> ty = Some Py_int \<or> ty = None"
    by simp
  show ?case
  proof (cases "col = c")
    case True
    with Cons.prems p have "dtype = Some Py_int \<or> dtype = None" by simp
    with True p Cons.IH [OF rest] show ?thesis
      by (auto simp: map_of_update_col)
  next
    case False
    with p Cons.IH [OF rest] show ?thesis
      by (simp add: map_of_update_col split: option.splits)
  qed
qed

lemma validate_columns_gui_bool_int:
  "\<forall>ty. (c, ty) \<in> set sch \<longrightarrow> ty = Some Py_int \<or> ty = None \<Longrightarrow>
   validate_columns_gui sch (AList.update c (VBool b) rec) =
   validate_columns_gui sch (AList.update c (VInt i) rec)"
proof (induction sch)
  case Nil
  then show ?case by simp
next
  case (Cons p sch)
  obtain col dtype where p: "p = (col, dtype)" by (cases p)
  from Cons.prems have rest: "\<forall>ty. (c, ty) \<in> set sch \<longrightarrow> ty = Some Py_int \<or> ty = None"
    by simp
  show ?case
  proof (cases "col = c")
    case True
    with Cons.prems p have "dtype = Some Py_int \<or> dtype = None" by simp
    with True p Cons.IH [OF rest] show ?thesis
      by (auto simp: map_of_update_col)
  next
    case False
    with p Cons.IH [OF rest] show ?thesis
      by (simp add: map_of_update_col split: option.splits)
  qed
qed

lemma declared_once:
  "distinct (map fst sch) \<Longrightarrow> map_of sch c = Some d \<Longrightarrow> (c, ty) \<in> set sch \<Longrightarrow> ty = d"
  by (metis map_of_is_SomeI option.inject)

lemma validate_columns_terminal_rejects:
  "(c, Some ty) \<in> set sch \<Longrightarrow> map_of rec c = Some v \<Longrightarrow> v \<noteq> VNone \<Longrightarrow> \<not> isinstance v ty \<Longrightarrow>
   isl (validate_columns_terminal sch rec)"
  by (induction sch) (auto split: option.splits)

lemma validate_columns_gui_rejects:
  "(c, Some ty) \<in> set sch \<Longrightarrow> map_of rec c = Some v \<Longrightarrow> v \<noteq> VNone \<Longrightarrow> \<not> isinstance v ty \<Longrightarrow>
   isl (validate_columns_gui sch rec)"
  by (induction sch) (auto split: option.splits)



text \<open>
  Claim C2, as the spec states it: a Boolean value in a column declared Integer fails
  validation. It does not: in both engines the record \<open>{"n": True}\<close> passes the schema
  \<open>{"n": int}\<close>, because the kind test is \<open>isinstance\<close> and \<open>bool\<close> is a subclass of
  \<open>int\<close>.
\<close>

theorem boolean_in_integer_column_passes:
  "validate_record_terminal ''t'' [(''n'', VBool True)]
     (init\<lparr>schemas := [''t'' \<mapsto> [(''n'', Some Py_int)]]\<rparr>) = Inr ()
   \<and> validate_record_gui ''t'' [(''n'', VBool True)]
     (init\<lparr>schemas := [''t'' \<mapsto> [(''n'', Some Py_int)]]\<rparr>) = Inr ()"
  by (simp add: validate_record_terminal_def validate_record_gui_def init_def)




text \<open>
  Claim C2, amended: for every table whose schema declares a column \<open>c\<close> of kind Integer,
  in both engines a record with a Boolean in \<open>c\<close> is validated with the same outcome as the
  record with an Integer in \<open>c\<close> (a Boolean is accepted where Integer is declared), while a
  Text or a Float value in \<open>c\<close> makes validation fail.
\<close>

theorem boolean_validates_as_integer:
  assumes "schemas s t = Some sch" and "distinct (map fst sch)"
    and "map_of sch c = Some (Some Py_int)"
  shows "validate_record_terminal t (AList.update c (VBool b) rec) s =
           validate_record_terminal t (AList.update c (VInt i) rec) s
       \<and> validate_record_gui t (AList.update c (VBool b) rec) s =
           validate_record_gui t (AList.update c (VInt i) rec) s
       \<and> isl (validate_record_terminal t (AList.update c (VStr x) rec) s)
       \<and> isl (validate_record_gui t (AList.update c (VStr x) rec) s)
       \<and> isl (validate_record_terminal t (AList.update c (VFloat r) rec) s)
       \<and> isl (validate_record_gui t (AList.update c (VFloat r) rec) s)"
proof -
  have "ty = Some Py_int" if "(c, ty) \<in> set sch" for ty
    using declared_once [OF assms(2) assms(3) that] .
  then have only: "\<forall>ty. (c, ty) \<in> set sch \<longrightarrow> ty = Some Py_int \<or> ty = None"
    by simp
  have mem: "(c, Some Py_int) \<in> set sch"
    using assms(3) by (rule map_of_SomeD)
  have a: "validate_record_terminal t (AList.update c (VBool b) rec) s =
           validate_record_terminal t (AList.update c (VInt i) rec) s"
    unfolding validate_record_terminal_def assms(1)
    using validate_columns_terminal_bool_int [OF only, of b rec i] by simp
  have b: "validate_record_gui t (AList.update c (VBool b) rec) s =
           validate_record_gui t (AList.update c (VInt i) rec) s"
    unfolding validate_record_gui_def assms(1)
    using validate_columns_gui_bool_int [OF only, of b rec i] by simp
  have look: "map_of (AList.update c v rec) c = Some v" for v
    by (simp add: map_of_update_col)
  have c1: "isl (validate_record_terminal t (AList.update c v rec) s)"
    if "v \<noteq> VNone" "\<not> isinstance v Py_int" for v
    unfolding validate_record_terminal_def assms(1)
    using validate_columns_terminal_rejects [OF mem look that] by simp
  have c2: "isl (validate_record_gui t (AList.update c v rec) s)"
    if "v \<noteq> VNone" "\<not> isinstance v Py_int" for v
    unfolding validate_record_gui_def assms(1)
    using validate_columns_gui_rejects [OF mem look that] by simp
  have d1: "isl (validate_record_terminal t (AList.update c (VStr x) rec) s)"
    by (rule c1) simp_all
  have d2: "isl (validate_record_gui t (AList.update c (VStr x) rec) s)"
    by (rule c2) simp_all
  have d3: "isl (validate_record_terminal t (AList.update c (VFloat r) rec) s)"
    by (rule c1) simp_all
  have d4: "isl (validate_record_gui t (AList.update c (VFloat r) rec) s)"
    by (rule c2) simp_all
  from a b d1 d2 d3 d4 show ?thesis by (intro conjI)
qed

theorem boolean_validates_as_integer_witness:
  "validate_record_terminal ''t'' [(''n'', VBool True)]
     (init\<lparr>schemas := [''t'' \<mapsto> [(''n'', Some Py_int)]]\<rparr>) =
   validate_record_terminal ''t'' [(''n'', VInt 7)]
     (init\<lparr>schemas := [''t'' \<mapsto> [(''n'', Some Py_int)]]\<rparr>)
   \<and> isl (validate_record_gui ''t'' [(''n'', VStr ''x'')]
     (init\<lparr>schemas := [''t'' \<mapsto> [(''n'', Some Py_int)]]\<rparr>))"
proof -
  let ?s = "init\<lparr>schemas := [''t'' \<mapsto> [(''n'', Some Py_int)]]\<rparr>"
  have h1: "schemas ?s ''t'' = Some [(''n'', Some Py_int)]" by simp
  have h2: "distinct (map fst [(''n'', Some Py_int)])" by simp
  have h3: "map_of [(''n'', Some Py_int)] ''n'' = Some (Some Py_int)" by simp
  show ?thesis
    using boolean_validates_as_integer [OF h1 h2 h3, of True "[(''n'', VNone)]" 7 "''x''" 0]
    by simp
qed

section \<open>Selection\<close>

lemma select_loop_filter:
  "select_loop conditions rows results = results @ filter (matches conditions) rows"
  by (induction rows arbitrary: results) simp_all

lemma matches_iff:
  "matches conditions r \<longleftrightarrow> (\<forall>(k, v)\<in>set conditions. py_eq (dict_get r k) v)"
  by (simp add: matches_def list_all_iff)

text \<open>
  Claim C8, as the spec states it: for every conditions mapping, \<open>select\<close> returns the
  rows that satisfy it. The conditions are the keyword arguments of the call, so a
  condition on a column named \<open>table_name\<close> cannot be passed: the call raises
  \<open>TypeError\<close>, although the table holds a row that satisfies the condition.
\<close>

theorem select_rejects_condition_on_table_name:
  "select_terminal ''t'' [(''table_name'', VStr ''x'')]
     (init\<lparr>tables := [''t'' \<mapsto> [[(''table_name'', VStr ''x'')]]]\<rparr>)
     = (Inl Keyword_collision, init\<lparr>tables := [''t'' \<mapsto> [[(''table_name'', VStr ''x'')]]]\<rparr>)
   \<and> exception_class Keyword_collision = TypeError
   \<and> matches [(''table_name'', VStr ''x'')] [(''table_name'', VStr ''x'')]"
  by (simp add: select_terminal_def keyword_clash_def matches_def py_eq_def dict_get_def)

text \<open>
  Claim C8, amended: for every table of the terminal engine and every conditions mapping
  that has no column named \<open>self\<close> or \<open>table_name\<close>, \<open>select\<close> returns exactly the
  rows for which every pair \<open>(k, v)\<close> of the conditions satisfies \<open>record.get(k) == v\<close>,
  in the order of the table (a subsequence of it); with empty conditions it returns all
  rows in order. The value of a column the row lacks is \<open>None\<close>, and \<open>==\<close> is the
  host's equality. A conditions mapping with a column named \<open>self\<close> or \<open>table_name\<close>
  makes the call raise \<open>TypeError\<close>. The state is unchanged in every case.
\<close>

theorem select_returns_matching_rows:
  assumes "tables s t = Some rows"
  shows "(\<not> keyword_clash conditions \<longrightarrow>
            select_terminal t conditions s =
              (Inr (RRows (filter (\<lambda>r. \<forall>(k, v)\<in>set conditions. py_eq (dict_get r k) v) rows)), s))
       \<and> subseq (filter (\<lambda>r. \<forall>(k, v)\<in>set conditions. py_eq (dict_get r k) v) rows) rows
       \<and> select_terminal t [] s = (Inr (RRows rows), s)
       \<and> (keyword_clash conditions \<longrightarrow>
            select_terminal t conditions s = (Inl Keyword_collision, s))
       \<and> (keyword_clash conditions \<longleftrightarrow>
            ''self'' \<in> fst ` set conditions \<or> ''table_name'' \<in> fst ` set conditions)"
proof -
  have ex: "check_table_exists t s = Inr ()"
    using assms by (simp add: check_table_exists_def domIff)
  have sel: "select_terminal t c s = (Inr (RRows (filter (matches c) rows)), s)"
    if "\<not> keyword_clash c" for c
    using assms ex that by (simp add: select_terminal_def select_loop_filter)
  have m: "matches conditions = (\<lambda>r. \<forall>(k, v)\<in>set conditions. py_eq (dict_get r k) v)"
    by (rule ext) (rule matches_iff)
  have e: "filter (matches []) rows = rows"
    by (simp add: matches_def)
  have n: "\<not> keyword_clash []"
    by (simp add: keyword_clash_def)
  have k: "keyword_clash conditions \<longleftrightarrow>
            ''self'' \<in> fst ` set conditions \<or> ''table_name'' \<in> fst ` set conditions"
    by (simp add: keyword_clash_def map_of_eq_None_iff)
  have c: "select_terminal t conditions s = (Inl Keyword_collision, s)"
    if "keyword_clash conditions"
    using that by (simp add: select_terminal_def)
  show ?thesis
    using sel [of conditions] sel [OF n] c k by (simp add: m e)
qed

theorem select_returns_matching_rows_witness:
  "select_terminal ''t'' [(''a'', VInt 1), (''b'', VStr ''x'')]
     (init\<lparr>tables := [''t'' \<mapsto>
        [[(''a'', VInt 1), (''b'', VStr ''x'')],
         [(''a'', VInt 2), (''b'', VStr ''x'')],
         [(''a'', VInt 1), (''b'', VStr ''y'')],
         [(''b'', VStr ''x''), (''a'', VFloat 1)]]]\<rparr>) =
   (Inr (RRows [[(''a'', VInt 1), (''b'', VStr ''x'')], [(''b'', VStr ''x''), (''a'', VFloat 1)]]),
    init\<lparr>tables := [''t'' \<mapsto>
        [[(''a'', VInt 1), (''b'', VStr ''x'')],
         [(''a'', VInt 2), (''b'', VStr ''x'')],
         [(''a'', VInt 1), (''b'', VStr ''y'')],
         [(''b'', VStr ''x''), (''a'', VFloat 1)]]]\<rparr>)"
proof -
  let ?rows = "[[(''a'', VInt 1), (''b'', VStr ''x'')],
         [(''a'', VInt 2), (''b'', VStr ''x'')],
         [(''a'', VInt 1), (''b'', VStr ''y'')],
         [(''b'', VStr ''x''), (''a'', VFloat 1)]]"
  let ?s = "init\<lparr>tables := [''t'' \<mapsto> ?rows]\<rparr>"
  have h: "tables ?s ''t'' = Some ?rows" by simp
  have n: "\<not> keyword_clash [(''a'', VInt 1), (''b'', VStr ''x'')]"
    by (simp add: keyword_clash_def)
  show ?thesis
    using select_returns_matching_rows [OF h, of "[(''a'', VInt 1), (''b'', VStr ''x'')]"] n
    by (simp add: py_eq_def dict_get_def)
qed

section \<open>Insertion\<close>

lemma save_terminal_present:
  "tables s t = Some rows \<Longrightarrow> path_of t \<notin> unwritable s \<Longrightarrow>
   save_terminal t s = (Inr (), s\<lparr>disk := (disk s)(path_of t \<mapsto> Doc (rows_json rows))\<rparr>)"
  by (simp add: save_terminal_def)

lemma save_gui_present:
  "tables s t = Some rows \<Longrightarrow> path_of t \<notin> unwritable s \<Longrightarrow>
   save_gui t s =
     (Inr (), s\<lparr>disk := (disk s)(path_of t \<mapsto>
        Doc (current_doc (case schemas s t of None \<Rightarrow> [] | Some sch \<Rightarrow> sch) rows))\<rparr>)"
  by (simp add: save_gui_def)

lemma save_terminal_unwritable:
  "path_of t \<in> unwritable s \<Longrightarrow> tables s t = Some rows \<Longrightarrow>
   save_terminal t s = (Inl (Cannot_open (path_of t)), s)"
  by (simp add: save_terminal_def)

lemma save_gui_unwritable:
  "path_of t \<in> unwritable s \<Longrightarrow> tables s t = Some rows \<Longrightarrow>
   save_gui t s = (Inl (Cannot_open (path_of t)), s)"
  by (simp add: save_gui_def)

lemma check_table_exists_iff:
  "check_table_exists t s = Inr () \<longleftrightarrow> tables s t \<noteq> None"
  "check_table_exists t s = Inl e \<longleftrightarrow> tables s t = None \<and> e = Table_not_exist t"
  by (auto simp: check_table_exists_def domIff)

lemma validate_columns_terminal_error:
  "validate_columns_terminal sch rec = Inl e \<Longrightarrow>
   (\<exists>c. e = Missing_column c) \<or> (\<exists>c ty. e = Column_must_be_of_type c ty)"
  by (induction sch rec rule: validate_columns_terminal.induct)
     (auto split: option.splits if_splits)

lemma validate_columns_gui_error:
  "validate_columns_gui sch rec = Inl e \<Longrightarrow>
   (\<exists>c. e = Missing_column c) \<or> (\<exists>c ty. e = Column_must_be_of_type c ty)"
  by (induction sch rec rule: validate_columns_gui.induct)
     (auto split: option.splits if_splits)

lemma find_duplicate_error:
  "find_duplicate k rec rows = Some e \<Longrightarrow> e = Duplicate_entry k (dict_get rec k)"
  by (induction rows) (auto split: if_splits)

lemma insert_terminal_failure:
  assumes "insert_terminal t rec key s = (Inl e, s')"
  shows "(s' = s \<and> (e = Table_not_exist t \<or> (\<exists>c. e = Missing_column c)
        \<or> (\<exists>c ty. e = Column_must_be_of_type c ty) \<or> (\<exists>k v. e = Duplicate_entry k v)))
       \<or> (e = Cannot_open (path_of t) \<and> tables s t \<noteq> None
          \<and> s' = s\<lparr>tables := (tables s)(t \<mapsto> the (tables s t) @ [rec])\<rparr>)"
proof (cases "tables s t")
  case None
  with assms show ?thesis
    by (simp add: insert_terminal_def check_table_exists_def domIff)
next
  case (Some rows)
  have ex: "check_table_exists t s = Inr ()"
    using Some by (simp add: check_table_exists_iff)
  show ?thesis
  proof (cases "validate_record_terminal t rec s")
    case (Inl e1)
    then have "(\<exists>c. e1 = Missing_column c) \<or> (\<exists>c ty. e1 = Column_must_be_of_type c ty)"
      by (auto simp: validate_record_terminal_def split: option.splits
               dest: validate_columns_terminal_error)
    with assms ex Inl show ?thesis
      by (auto simp: insert_terminal_def)
  next
    case (Inr u)
    let ?dup = "if truthy_key key then find_duplicate (the key) rec (the (tables s t)) else None"
    show ?thesis
    proof (cases ?dup)
      case None
      let ?s1 = "s\<lparr>tables := (tables s)(t \<mapsto> the (tables s t) @ [rec])\<rparr>"
      have t1: "tables ?s1 t = Some (rows @ [rec])"
        using Some by simp
      show ?thesis
      proof (cases "path_of t \<in> unwritable s")
        case True
        then have "path_of t \<in> unwritable ?s1" by simp
        from save_terminal_unwritable [OF this, of "rows @ [rec]"] t1 assms ex Inr None Some
        show ?thesis
          by (simp add: insert_terminal_def Let_def)
      next
        case False
        then have "path_of t \<notin> unwritable ?s1" by simp
        from save_terminal_present [OF t1 this] assms ex Inr None show ?thesis
          by (simp add: insert_terminal_def Let_def)
      qed
    next
      case (Some e1)
      then have "e1 = Duplicate_entry (the key) (dict_get rec (the key))"
        by (auto split: if_splits dest: find_duplicate_error)
      with assms ex Inr Some show ?thesis
        by (auto simp: insert_terminal_def)
    qed
  qed
qed

lemma insert_gui_failure:
  assumes "insert_gui t rec key s = (Inl e, s')"
  shows "(s' = s \<and> (e = Table_not_exist t \<or> (\<exists>c. e = Missing_column c)
        \<or> (\<exists>c ty. e = Column_must_be_of_type c ty) \<or> (\<exists>k v. e = Duplicate_entry k v)))
       \<or> (e = Cannot_open (path_of t) \<and> tables s t \<noteq> None
          \<and> s' = s\<lparr>tables := (tables s)(t \<mapsto> the (tables s t) @ [rec])\<rparr>)"
proof (cases "tables s t")
  case None
  with assms show ?thesis
    by (simp add: insert_gui_def check_table_exists_def domIff)
next
  case (Some rows)
  have ex: "check_table_exists t s = Inr ()"
    using Some by (simp add: check_table_exists_iff)
  show ?thesis
  proof (cases "validate_record_gui t rec s")
    case (Inl e1)
    then have "(\<exists>c. e1 = Missing_column c) \<or> (\<exists>c ty. e1 = Column_must_be_of_type c ty)"
      by (auto simp: validate_record_gui_def split: option.splits
               dest: validate_columns_gui_error)
    with assms ex Inl show ?thesis
      by (auto simp: insert_gui_def)
  next
    case (Inr u)
    let ?dup = "if truthy_key key then find_duplicate (the key) rec (the (tables s t)) else None"
    show ?thesis
    proof (cases ?dup)
      case None
      let ?s1 = "s\<lparr>tables := (tables s)(t \<mapsto> the (tables s t) @ [rec])\<rparr>"
      have t1: "tables ?s1 t = Some (rows @ [rec])"
        using Some by simp
      show ?thesis
      proof (cases "path_of t \<in> unwritable s")
        case True
        then have "path_of t \<in> unwritable ?s1" by simp
        from save_gui_unwritable [OF this, of "rows @ [rec]"] t1 assms ex Inr None Some
        show ?thesis
          by (simp add: insert_gui_def Let_def)
      next
        case False
        then have "path_of t \<notin> unwritable ?s1" by simp
        from save_gui_present [OF t1 this] assms ex Inr None show ?thesis
          by (simp add: insert_gui_def Let_def)
      qed
    next
      case (Some e1)
      then have "e1 = Duplicate_entry (the key) (dict_get rec (the key))"
        by (auto split: if_splits dest: find_duplicate_error)
      with assms ex Inr Some show ?thesis
        by (auto simp: insert_gui_def)
    qed
  qed
qed

text \<open>
  Claim C10: in both engines, whenever \<open>insert\<close> raises because the table does not exist,
  because the record fails the schema (a declared column is missing, or a value has the
  wrong type) or because the key value is a duplicate, the state after the call is the
  state before it: the row sequences are unchanged and no file has been written. These
  checks all come before the append and the save: the one other way for \<open>insert\<close> to
  raise is that \<open>_save\<close> cannot open the file, and then the record has been appended and
  the files are as they were.
\<close>

theorem failed_insert_changes_nothing:
  "(fst (insert_terminal t rec key s) = Inl e \<longrightarrow>
      ((e = Table_not_exist t \<or> (\<exists>c. e = Missing_column c)
        \<or> (\<exists>c ty. e = Column_must_be_of_type c ty) \<or> (\<exists>k v. e = Duplicate_entry k v)) \<longrightarrow>
         snd (insert_terminal t rec key s) = s
         \<and> tables (snd (insert_terminal t rec key s)) = tables s
         \<and> disk (snd (insert_terminal t rec key s)) = disk s)
      \<and> ((e = Table_not_exist t \<or> (\<exists>c. e = Missing_column c)
        \<or> (\<exists>c ty. e = Column_must_be_of_type c ty) \<or> (\<exists>k v. e = Duplicate_entry k v))
         \<or> (e = Cannot_open (path_of t)
            \<and> tables (snd (insert_terminal t rec key s)) = (tables s)(t \<mapsto> the (tables s t) @ [rec])
            \<and> disk (snd (insert_terminal t rec key s)) = disk s)))
   \<and> (fst (insert_gui t rec key s) = Inl e \<longrightarrow>
      ((e = Table_not_exist t \<or> (\<exists>c. e = Missing_column c)
        \<or> (\<exists>c ty. e = Column_must_be_of_type c ty) \<or> (\<exists>k v. e = Duplicate_entry k v)) \<longrightarrow>
         snd (insert_gui t rec key s) = s
         \<and> tables (snd (insert_gui t rec key s)) = tables s
         \<and> disk (snd (insert_gui t rec key s)) = disk s)
      \<and> ((e = Table_not_exist t \<or> (\<exists>c. e = Missing_column c)
        \<or> (\<exists>c ty. e = Column_must_be_of_type c ty) \<or> (\<exists>k v. e = Duplicate_entry k v))
         \<or> (e = Cannot_open (path_of t)
            \<and> tables (snd (insert_gui t rec key s)) = (tables s)(t \<mapsto> the (tables s t) @ [rec])
            \<and> disk (snd (insert_gui t rec key s)) = disk s)))"
proof -
  have "(fst (insert_terminal t rec key s) = Inl e \<longrightarrow>
      ((e = Table_not_exist t \<or> (\<exists>c. e = Missing_column c)
        \<or> (\<exists>c ty. e = Column_must_be_of_type c ty) \<or> (\<exists>k v. e = Duplicate_entry k v)) \<longrightarrow>
         snd (insert_terminal t rec key s) = s
         \<and> tables (snd (insert_terminal t rec key s)) = tables s
         \<and> disk (snd (insert_terminal t rec key s)) = disk s)
      \<and> ((e = Table_not_exist t \<or> (\<exists>c. e = Missing_column c)
        \<or> (\<exists>c ty. e = Column_must_be_of_type c ty) \<or> (\<exists>k v. e = Duplicate_entry k v))
         \<or> (e = Cannot_open (path_of t)
            \<and> tables (snd (insert_terminal t rec key s)) = (tables s)(t \<mapsto> the (tables s t) @ [rec])
            \<and> disk (snd (insert_terminal t rec key s)) = disk s)))"
  proof (intro impI)
    assume "fst (insert_terminal t rec key s) = Inl e"
    then have "insert_terminal t rec key s = (Inl e, snd (insert_terminal t rec key s))"
      by (simp add: prod_eq_iff)
    from insert_terminal_failure [OF this]
    show "((e = Table_not_exist t \<or> (\<exists>c. e = Missing_column c)
        \<or> (\<exists>c ty. e = Column_must_be_of_type c ty) \<or> (\<exists>k v. e = Duplicate_entry k v)) \<longrightarrow>
         snd (insert_terminal t rec key s) = s
         \<and> tables (snd (insert_terminal t rec key s)) = tables s
         \<and> disk (snd (insert_terminal t rec key s)) = disk s)
      \<and> ((e = Table_not_exist t \<or> (\<exists>c. e = Missing_column c)
        \<or> (\<exists>c ty. e = Column_must_be_of_type c ty) \<or> (\<exists>k v. e = Duplicate_entry k v))
         \<or> (e = Cannot_open (path_of t)
            \<and> tables (snd (insert_terminal t rec key s)) = (tables s)(t \<mapsto> the (tables s t) @ [rec])
            \<and> disk (snd (insert_terminal t rec key s)) = disk s))"
      by (elim disjE conjE) simp_all
  qed
  moreover
  have "(fst (insert_gui t rec key s) = Inl e \<longrightarrow>
      ((e = Table_not_exist t \<or> (\<exists>c. e = Missing_column c)
        \<or> (\<exists>c ty. e = Column_must_be_of_type c ty) \<or> (\<exists>k v. e = Duplicate_entry k v)) \<longrightarrow>
         snd (insert_gui t rec key s) = s
         \<and> tables (snd (insert_gui t rec key s)) = tables s
         \<and> disk (snd (insert_gui t rec key s)) = disk s)
      \<and> ((e = Table_not_exist t \<or> (\<exists>c. e = Missing_column c)
        \<or> (\<exists>c ty. e = Column_must_be_of_type c ty) \<or> (\<exists>k v. e = Duplicate_entry k v))
         \<or> (e = Cannot_open (path_of t)
            \<and> tables (snd (insert_gui t rec key s)) = (tables s)(t \<mapsto> the (tables s t) @ [rec])
            \<and> disk (snd (insert_gui t rec key s)) = disk s)))"
  proof (intro impI)
    assume "fst (insert_gui t rec key s) = Inl e"
    then have "insert_gui t rec key s = (Inl e, snd (insert_gui t rec key s))"
      by (simp add: prod_eq_iff)
    from insert_gui_failure [OF this]
    show "((e = Table_not_exist t \<or> (\<exists>c. e = Missing_column c)
        \<or> (\<exists>c ty. e = Column_must_be_of_type c ty) \<or> (\<exists>k v. e = Duplicate_entry k v)) \<longrightarrow>
         snd (insert_gui t rec key s) = s
         \<and> tables (snd (insert_gui t rec key s)) = tables s
         \<and> disk (snd (insert_gui t rec key s)) = disk s)
      \<and> ((e = Table_not_exist t \<or> (\<exists>c. e = Missing_column c)
        \<or> (\<exists>c ty. e = Column_must_be_of_type c ty) \<or> (\<exists>k v. e = Duplicate_entry k v))
         \<or> (e = Cannot_open (path_of t)
            \<and> tables (snd (insert_gui t rec key s)) = (tables s)(t \<mapsto> the (tables s t) @ [rec])
            \<and> disk (snd (insert_gui t rec key s)) = disk s))"
      by (elim disjE conjE) simp_all
  qed
  ultimately show ?thesis by (intro conjI)
qed

theorem failed_insert_changes_nothing_witness:
  "fst (insert_gui ''t'' [(''id'', VInt 1)] (Some ''id'')
     (init\<lparr>tables := [''t'' \<mapsto> [[(''id'', VBool True)]]]\<rparr>)) =
     Inl (Duplicate_entry ''id'' (VInt 1))
   \<and> snd (insert_gui ''t'' [(''id'', VInt 1)] (Some ''id'')
     (init\<lparr>tables := [''t'' \<mapsto> [[(''id'', VBool True)]]]\<rparr>)) =
     init\<lparr>tables := [''t'' \<mapsto> [[(''id'', VBool True)]]]\<rparr>
   \<and> fst (insert_terminal ''u'' [(''id'', VInt 1)] None init) = Inl (Table_not_exist ''u'')
   \<and> snd (insert_terminal ''u'' [(''id'', VInt 1)] None init) = init
   \<and> insert_terminal ''a/b'' [(''id'', VInt 1)] None
        (init\<lparr>tables := [''a/b'' \<mapsto> []], unwritable := {path_of ''a/b''}\<rparr>) =
      (Inl (Cannot_open (path_of ''a/b'')),
       init\<lparr>tables := [''a/b'' \<mapsto> [[(''id'', VInt 1)]]], unwritable := {path_of ''a/b''}\<rparr>)"
proof -
  let ?s = "init\<lparr>tables := [''t'' \<mapsto> [[(''id'', VBool True)]]]\<rparr>"
  have h: "fst (insert_gui ''t'' [(''id'', VInt 1)] (Some ''id'') ?s)
             = Inl (Duplicate_entry ''id'' (VInt 1))"
    by (simp add: insert_gui_def check_table_exists_def validate_record_gui_def truthy_key_def
          py_eq_def dict_get_def init_def)
  have k: "fst (insert_terminal ''u'' [(''id'', VInt 1)] None init) = Inl (Table_not_exist ''u'')"
    by (simp add: insert_terminal_def check_table_exists_def init_def)
  have p1: "Duplicate_entry ''id'' (VInt 1) = Table_not_exist ''t''
        \<or> (\<exists>c. Duplicate_entry ''id'' (VInt 1) = Missing_column c)
        \<or> (\<exists>c ty. Duplicate_entry ''id'' (VInt 1) = Column_must_be_of_type c ty)
        \<or> (\<exists>k v. Duplicate_entry ''id'' (VInt 1) = Duplicate_entry k v)"
    by simp
  have p2: "Table_not_exist ''u'' = Table_not_exist ''u''
        \<or> (\<exists>c. Table_not_exist ''u'' = Missing_column c)
        \<or> (\<exists>c ty. Table_not_exist ''u'' = Column_must_be_of_type c ty)
        \<or> (\<exists>k v. Table_not_exist ''u'' = Duplicate_entry k v)"
    by simp
  note g = failed_insert_changes_nothing
    [of "''t''" "[(''id'', VInt 1)]" "Some ''id''" ?s "Duplicate_entry ''id'' (VInt 1)",
     THEN conjunct2, THEN mp, OF h, THEN conjunct1, THEN mp, OF p1, THEN conjunct1]
  note t = failed_insert_changes_nothing
    [of "''u''" "[(''id'', VInt 1)]" None init "Table_not_exist ''u''",
     THEN conjunct1, THEN mp, OF k, THEN conjunct1, THEN mp, OF p2, THEN conjunct1]
  have w: "insert_terminal ''a/b'' [(''id'', VInt 1)] None
        (init\<lparr>tables := [''a/b'' \<mapsto> []], unwritable := {path_of ''a/b''}\<rparr>) =
      (Inl (Cannot_open (path_of ''a/b'')),
       init\<lparr>tables := [''a/b'' \<mapsto> [[(''id'', VInt 1)]]], unwritable := {path_of ''a/b''}\<rparr>)"
    by (simp add: insert_terminal_def check_table_exists_def validate_record_terminal_def
          truthy_key_def save_terminal_def init_def)
  from h g k t w show ?thesis by (intro conjI)
qed

section \<open>Update and delete\<close>

lemma update_loop_no_alias:
  "alias = None \<or> (\<exists>i. alias = Some i \<and> (i < j \<or> j + length rows \<le> i)) \<Longrightarrow>
   update_loop alias c u rows j n =
     (map (\<lambda>r. if matches c r then apply_updates u r else r) rows,
      n + length (filter (matches c) rows))"
proof (induction rows arbitrary: j n)
  case Nil
  then show ?case by simp
next
  case (Cons rec rest)
  from Cons.prems have nj: "alias \<noteq> Some j" by auto
  from Cons.prems
  have next_ok: "alias = None \<or> (\<exists>i. alias = Some i \<and> (i < j + 1 \<or> j + 1 + length rest \<le> i))"
    by auto
  show ?case
    using nj Cons.IH [OF next_ok] by simp
qed

lemma update_loop_unmatched:
  "filter (matches c) rows = [] \<Longrightarrow> update_loop alias c u rows j n = (rows, n)"
  by (induction rows arbitrary: j n) (auto split: if_splits)

lemma update_loop_alias:
  "j \<le> i \<Longrightarrow> i < j + length rows \<Longrightarrow>
   update_loop (Some i) c u rows j n =
     (map (\<lambda>r. if matches c r then apply_updates u r else r) (take (i - j) rows)
        @ (if matches c (rows ! (i - j)) then apply_updates u (rows ! (i - j)) else rows ! (i - j))
        # map (\<lambda>r. if matches (if matches c (rows ! (i - j))
                                  then apply_updates u (rows ! (i - j)) else c) r
                      then apply_updates u r else r)
            (drop (Suc (i - j)) rows),
      n + length (filter (matches c) (take (Suc (i - j)) rows))
        + length (filter (matches (if matches c (rows ! (i - j))
                                   then apply_updates u (rows ! (i - j)) else c))
                    (drop (Suc (i - j)) rows)))"
proof (induction rows arbitrary: j n)
  case Nil
  then show ?case by simp
next
  case (Cons rec rest)
  show ?case
  proof (cases "i = j")
    case True
    have later: "Some i = None \<or> (\<exists>k. Some i = Some k \<and> (k < j + 1 \<or> j + 1 + length rest \<le> k))"
      using True by simp
    show ?thesis
      using True update_loop_no_alias [OF later] by simp
  next
    case False
    with Cons.prems have lt: "j + 1 \<le> i" and up: "i < j + 1 + length rest" by simp_all
    from False Cons.prems obtain d where d: "i - j = Suc d" "i - (j + 1) = d"
      by (cases "i - j") simp_all
    show ?thesis
      using False Cons.IH [OF lt up] d by simp
  qed
qed

lemma aliased_row_Some:
  "aliased_row cs rows = Some i \<Longrightarrow> i < length rows \<and> rows ! i = conds_value cs"
proof (cases cs)
  case (Conds v a)
  assume "aliased_row cs rows = Some i"
  with Conds show ?thesis by (cases a) (auto split: if_splits)
qed

lemma removed_count:
  "length rows - length (filter (\<lambda>r. \<not> P r) rows) = length (filter P rows)"
  using sum_length_filter_compl [of P rows] by simp

lemma update_gui_result:
  assumes "tables s t = Some rows" and "path_of t \<notin> unwritable s"
    and "update_loop (aliased_row cs rows) (conds_value cs) updates rows 0 0 = (rows', n)"
  shows "update_gui t cs updates s =
    (Inr (RInt n),
     s\<lparr>tables := (tables s)(t \<mapsto> rows'),
       disk := (disk s)(path_of t \<mapsto>
          Doc (current_doc (case schemas s t of None \<Rightarrow> [] | Some sch \<Rightarrow> sch) rows'))\<rparr>)"
  using assms
  by (simp add: update_gui_def check_table_exists_def domIff save_gui_def)

lemma update_terminal_result:
  assumes "tables s t = Some rows" and "path_of t \<notin> unwritable s"
    and "update_loop (aliased_row cs rows) (conds_value cs) updates rows 0 0 = (rows', n)"
  shows "update_terminal t cs updates s =
    (Inr RNone,
     py_print (Updated n t)
      (s\<lparr>tables := (tables s)(t \<mapsto> rows'),
         disk := (disk s)(path_of t \<mapsto> Doc (rows_json rows'))\<rparr>))"
  using assms
  by (simp add: update_terminal_def check_table_exists_def domIff save_terminal_def)

lemma delete_gui_result:
  assumes "tables s t = Some rows" and "path_of t \<notin> unwritable s"
    and "\<not> keyword_clash conditions"
  shows "delete_gui t conditions s =
    (Inr (RInt (length (filter (matches conditions) rows))),
     s\<lparr>tables := (tables s)(t \<mapsto> filter (\<lambda>r. \<not> matches conditions r) rows),
       disk := (disk s)(path_of t \<mapsto>
          Doc (current_doc (case schemas s t of None \<Rightarrow> [] | Some sch \<Rightarrow> sch)
            (filter (\<lambda>r. \<not> matches conditions r) rows)))\<rparr>)"
  using assms
  by (simp add: delete_gui_def check_table_exists_def domIff save_gui_def Let_def removed_count)

lemma delete_terminal_result:
  assumes "tables s t = Some rows" and "path_of t \<notin> unwritable s"
    and "\<not> keyword_clash conditions"
  shows "delete_terminal t conditions s =
    (Inr RNone,
     py_print (Deleted (length (filter (matches conditions) rows)) t)
      (s\<lparr>tables := (tables s)(t \<mapsto> filter (\<lambda>r. \<not> matches conditions r) rows),
       disk := (disk s)(path_of t \<mapsto> Doc (rows_json (filter (\<lambda>r. \<not> matches conditions r) rows)))\<rparr>))"
  using assms
  by (simp add: delete_terminal_def check_table_exists_def domIff save_terminal_def Let_def
        removed_count)

lemma update_results_by_value:
  assumes "tables s t = Some rows" and "path_of t \<notin> unwritable s"
    and "aliased_row (Conds v a) rows = None"
  shows "fst (update_gui t (Conds v a) updates s) = Inr (RInt (length (filter (matches v) rows)))"
    and "tables (snd (update_gui t (Conds v a) updates s)) t = Some (map (\<lambda>r. if matches v r then apply_updates updates r else r) rows)"
    and "fst (update_terminal t (Conds v a) updates s) = Inr RNone"
    and "console (snd (update_terminal t (Conds v a) updates s)) = console s @ [Updated (length (filter (matches v) rows)) t]"
    and "tables (snd (update_terminal t (Conds v a) updates s)) t = Some (map (\<lambda>r. if matches v r then apply_updates updates r else r) rows)"
proof -
  have l: "update_loop (aliased_row (Conds v a) rows) (conds_value (Conds v a)) updates rows 0 0
             = (map (\<lambda>r. if matches v r then apply_updates updates r else r) rows, length (filter (matches v) rows))"
    using update_loop_no_alias [of "aliased_row (Conds v a) rows" 0 rows v updates 0] assms(3)
    by simp
  show "fst (update_gui t (Conds v a) updates s) = Inr (RInt (length (filter (matches v) rows)))"
    and "tables (snd (update_gui t (Conds v a) updates s)) t = Some (map (\<lambda>r. if matches v r then apply_updates updates r else r) rows)"
    by (simp_all add: update_gui_result [OF assms(1,2) l])
  show "fst (update_terminal t (Conds v a) updates s) = Inr RNone"
    and "console (snd (update_terminal t (Conds v a) updates s)) = console s @ [Updated (length (filter (matches v) rows)) t]"
    and "tables (snd (update_terminal t (Conds v a) updates s)) t = Some (map (\<lambda>r. if matches v r then apply_updates updates r else r) rows)"
    by (simp_all add: update_terminal_result [OF assms(1,2) l] py_print_def)
qed

lemma update_results_aliased:
  assumes "tables s t = Some rows" and "path_of t \<notin> unwritable s"
    and "i < length rows" and "rows ! i = v"
  shows "fst (update_gui t (Conds v (Some i)) updates s) = Inr (RInt (length (filter (matches v) (take (Suc i) rows)) + length (filter (matches (if matches v v then apply_updates updates v else v)) (drop (Suc i) rows))))"
    and "tables (snd (update_gui t (Conds v (Some i)) updates s)) t = Some (map (\<lambda>r. if matches v r then apply_updates updates r else r) (take i rows) @ (if matches v v then apply_updates updates v else v) # map (\<lambda>r. if matches (if matches v v then apply_updates updates v else v) r then apply_updates updates r else r) (drop (Suc i) rows))"
    and "fst (update_terminal t (Conds v (Some i)) updates s) = Inr RNone"
    and "console (snd (update_terminal t (Conds v (Some i)) updates s)) = console s @ [Updated (length (filter (matches v) (take (Suc i) rows)) + length (filter (matches (if matches v v then apply_updates updates v else v)) (drop (Suc i) rows))) t]"
    and "tables (snd (update_terminal t (Conds v (Some i)) updates s)) t = Some (map (\<lambda>r. if matches v r then apply_updates updates r else r) (take i rows) @ (if matches v v then apply_updates updates v else v) # map (\<lambda>r. if matches (if matches v v then apply_updates updates v else v) r then apply_updates updates r else r) (drop (Suc i) rows))"
proof -
  have al: "aliased_row (Conds v (Some i)) rows = Some i"
    using assms(3,4) by simp
  have l: "update_loop (aliased_row (Conds v (Some i)) rows) (conds_value (Conds v (Some i)))
             updates rows 0 0 = (map (\<lambda>r. if matches v r then apply_updates updates r else r) (take i rows) @ (if matches v v then apply_updates updates v else v) # map (\<lambda>r. if matches (if matches v v then apply_updates updates v else v) r then apply_updates updates r else r) (drop (Suc i) rows), length (filter (matches v) (take (Suc i) rows)) + length (filter (matches (if matches v v then apply_updates updates v else v)) (drop (Suc i) rows)))"
    unfolding al
    using update_loop_alias [of 0 i rows v updates 0] assms(3,4) by simp
  show "fst (update_gui t (Conds v (Some i)) updates s) = Inr (RInt (length (filter (matches v) (take (Suc i) rows)) + length (filter (matches (if matches v v then apply_updates updates v else v)) (drop (Suc i) rows))))"
    and "tables (snd (update_gui t (Conds v (Some i)) updates s)) t = Some (map (\<lambda>r. if matches v r then apply_updates updates r else r) (take i rows) @ (if matches v v then apply_updates updates v else v) # map (\<lambda>r. if matches (if matches v v then apply_updates updates v else v) r then apply_updates updates r else r) (drop (Suc i) rows))"
    by (simp_all add: update_gui_result [OF assms(1,2) l])
  show "fst (update_terminal t (Conds v (Some i)) updates s) = Inr RNone"
    and "console (snd (update_terminal t (Conds v (Some i)) updates s)) = console s @ [Updated (length (filter (matches v) (take (Suc i) rows)) + length (filter (matches (if matches v v then apply_updates updates v else v)) (drop (Suc i) rows))) t]"
    and "tables (snd (update_terminal t (Conds v (Some i)) updates s)) t = Some (map (\<lambda>r. if matches v r then apply_updates updates r else r) (take i rows) @ (if matches v v then apply_updates updates v else v) # map (\<lambda>r. if matches (if matches v v then apply_updates updates v else v) r then apply_updates updates r else r) (drop (Suc i) rows))"
    by (simp_all add: update_terminal_result [OF assms(1,2) l] py_print_def)
qed

lemma update_results_unmatched:
  assumes "tables s t = Some rows" and "path_of t \<notin> unwritable s"
    and "filter (matches v) rows = []"
  shows "fst (update_gui t (Conds v a) updates s) = Inr (RInt 0)"
    and "tables (snd (update_gui t (Conds v a) updates s)) t = Some rows"
    and "tables (snd (update_terminal t (Conds v a) updates s)) t = Some rows"
proof -
  have l: "update_loop (aliased_row (Conds v a) rows) (conds_value (Conds v a)) updates rows 0 0
             = (rows, 0)"
    using update_loop_unmatched [OF assms(3)] by simp
  show "fst (update_gui t (Conds v a) updates s) = Inr (RInt 0)"
    and "tables (snd (update_gui t (Conds v a) updates s)) t = Some rows"
    by (simp_all add: update_gui_result [OF assms(1,2) l])
  show "tables (snd (update_terminal t (Conds v a) updates s)) t = Some rows"
    by (simp add: update_terminal_result [OF assms(1,2) l] py_print_def)
qed

text \<open>
  Claim C9, as the spec states it: \<open>delete\<close> returns the number of records removed and
  \<open>update\<close> the number of records matched. The terminal engine returns nothing from
  either: an update that matches no row returns \<open>None\<close>, not \<open>0\<close>, and a delete that
  removes two rows returns \<open>None\<close>, not \<open>2\<close>.
\<close>

theorem terminal_update_delete_return_nothing:
  "fst (update_terminal ''t'' (Conds [(''a'', VInt 9)] None) [(''b'', VInt 0)]
          (init\<lparr>tables := [''t'' \<mapsto> [[(''a'', VInt 1)], [(''a'', VInt 2)], [(''a'', VInt 1)]]]\<rparr>))
     = Inr RNone
   \<and> fst (delete_terminal ''t'' [(''a'', VInt 1)]
          (init\<lparr>tables := [''t'' \<mapsto> [[(''a'', VInt 1)], [(''a'', VInt 2)], [(''a'', VInt 1)]]]\<rparr>))
     = Inr RNone"
  by (simp add: update_terminal_def delete_terminal_def check_table_exists_def save_terminal_def
        keyword_clash_def matches_def py_eq_def dict_get_def Let_def init_def)

text \<open>
  Claim C9, amended: for every table whose file can be opened for writing, \<open>delete\<close> of
  the GUI engine, given conditions that can be passed as keywords, returns the number of
  records removed (the rows that match, which are exactly the ones missing afterwards),
  and \<open>update\<close> of the GUI engine returns the number of records that matched when the
  scan reached them. For a conditions dict of its own that is the number of rows that
  match it, and each of them is rewritten. For a conditions dict that is the row object
  at index \<open>i\<close> of the table, the rows up to \<open>i\<close> are compared with the value the row
  had and the rows after \<open>i\<close> with the value the row has after its own rewriting.
  \<open>update\<close> and \<open>delete\<close> of the terminal engine return nothing and print that count.
  In both engines an update whose conditions match no row leaves the row sequence
  unchanged, and the GUI engine returns 0 for it. A \<open>delete\<close> whose conditions have a
  column named \<open>self\<close> or \<open>table_name\<close> raises \<open>TypeError\<close> and changes nothing.
\<close>

theorem update_delete_counts:
  assumes "tables s t = Some rows" and "path_of t \<notin> unwritable s"
  shows "(\<not> keyword_clash conditions \<longrightarrow>
            fst (delete_gui t conditions s) = Inr (RInt (length (filter (matches conditions) rows)))
          \<and> tables (snd (delete_gui t conditions s)) t = Some (filter (\<lambda>r. \<not> matches conditions r) rows)
          \<and> fst (delete_terminal t conditions s) = Inr RNone
          \<and> console (snd (delete_terminal t conditions s)) = console s @ [Deleted (length (filter (matches conditions) rows)) t])
       \<and> length (filter (\<lambda>r. \<not> matches conditions r) rows) = length rows - length (filter (matches conditions) rows)
       \<and> (keyword_clash conditions \<longrightarrow>
            delete_gui t conditions s = (Inl Keyword_collision, s)
          \<and> delete_terminal t conditions s = (Inl Keyword_collision, s))
       \<and> (aliased_row (Conds v a) rows = None \<longrightarrow>
            fst (update_gui t (Conds v a) updates s) = Inr (RInt (length (filter (matches v) rows)))
          \<and> tables (snd (update_gui t (Conds v a) updates s)) t = Some (map (\<lambda>r. if matches v r then apply_updates updates r else r) rows)
          \<and> fst (update_terminal t (Conds v a) updates s) = Inr RNone
          \<and> console (snd (update_terminal t (Conds v a) updates s)) =
              console s @ [Updated (length (filter (matches v) rows)) t])
       \<and> (i < length rows \<and> rows ! i = v \<longrightarrow>
            fst (update_gui t (Conds v (Some i)) updates s) = Inr (RInt (length (filter (matches v) (take (Suc i) rows)) + length (filter (matches (if matches v v then apply_updates updates v else v)) (drop (Suc i) rows))))
          \<and> tables (snd (update_gui t (Conds v (Some i)) updates s)) t = Some (map (\<lambda>r. if matches v r then apply_updates updates r else r) (take i rows) @ (if matches v v then apply_updates updates v else v) # map (\<lambda>r. if matches (if matches v v then apply_updates updates v else v) r then apply_updates updates r else r) (drop (Suc i) rows))
          \<and> fst (update_terminal t (Conds v (Some i)) updates s) = Inr RNone
          \<and> console (snd (update_terminal t (Conds v (Some i)) updates s)) =
              console s @ [Updated (length (filter (matches v) (take (Suc i) rows)) + length (filter (matches (if matches v v then apply_updates updates v else v)) (drop (Suc i) rows))) t])
       \<and> (filter (matches v) rows = [] \<longrightarrow>
            fst (update_gui t (Conds v a) updates s) = Inr (RInt 0)
          \<and> tables (snd (update_gui t (Conds v a) updates s)) t = Some rows
          \<and> tables (snd (update_terminal t (Conds v a) updates s)) t = Some rows)"
proof (intro conjI impI)
  show "length (filter (\<lambda>r. \<not> matches conditions r) rows) = length rows - length (filter (matches conditions) rows)"
    using sum_length_filter_compl [of "matches conditions" rows] by simp
next
  assume n: "\<not> keyword_clash conditions"
  show "fst (delete_gui t conditions s) = Inr (RInt (length (filter (matches conditions) rows)))"
    and "tables (snd (delete_gui t conditions s)) t = Some (filter (\<lambda>r. \<not> matches conditions r) rows)"
    by (simp_all add: delete_gui_result [OF assms n])
  show "fst (delete_terminal t conditions s) = Inr RNone"
    and "console (snd (delete_terminal t conditions s)) = console s @ [Deleted (length (filter (matches conditions) rows)) t]"
    by (simp_all add: delete_terminal_result [OF assms n] py_print_def)
next
  assume "keyword_clash conditions"
  then show "delete_gui t conditions s = (Inl Keyword_collision, s)"
    and "delete_terminal t conditions s = (Inl Keyword_collision, s)"
    by (simp_all add: delete_gui_def delete_terminal_def)
next
  assume b: "aliased_row (Conds v a) rows = None"
  show "fst (update_gui t (Conds v a) updates s) = Inr (RInt (length (filter (matches v) rows)))"
    by (rule update_results_by_value(1) [OF assms b])
  show "tables (snd (update_gui t (Conds v a) updates s)) t = Some (map (\<lambda>r. if matches v r then apply_updates updates r else r) rows)"
    by (rule update_results_by_value(2) [OF assms b])
  show "fst (update_terminal t (Conds v a) updates s) = Inr RNone"
    by (rule update_results_by_value(3) [OF assms b])
  show "console (snd (update_terminal t (Conds v a) updates s)) =
              console s @ [Updated (length (filter (matches v) rows)) t]"
    by (rule update_results_by_value(4) [OF assms b])
next
  assume "i < length rows \<and> rows ! i = v"
  then have i: "i < length rows" and r: "rows ! i = v" by simp_all
  show "fst (update_gui t (Conds v (Some i)) updates s) = Inr (RInt (length (filter (matches v) (take (Suc i) rows)) + length (filter (matches (if matches v v then apply_updates updates v else v)) (drop (Suc i) rows))))"
    by (rule update_results_aliased(1) [OF assms i r])
  show "tables (snd (update_gui t (Conds v (Some i)) updates s)) t = Some (map (\<lambda>r. if matches v r then apply_updates updates r else r) (take i rows) @ (if matches v v then apply_updates updates v else v) # map (\<lambda>r. if matches (if matches v v then apply_updates updates v else v) r then apply_updates updates r else r) (drop (Suc i) rows))"
    by (rule update_results_aliased(2) [OF assms i r])
  show "fst (update_terminal t (Conds v (Some i)) updates s) = Inr RNone"
    by (rule update_results_aliased(3) [OF assms i r])
  show "console (snd (update_terminal t (Conds v (Some i)) updates s)) =
              console s @ [Updated (length (filter (matches v) (take (Suc i) rows)) + length (filter (matches (if matches v v then apply_updates updates v else v)) (drop (Suc i) rows))) t]"
    by (rule update_results_aliased(4) [OF assms i r])
next
  assume z: "filter (matches v) rows = []"
  show "fst (update_gui t (Conds v a) updates s) = Inr (RInt 0)"
    by (rule update_results_unmatched(1) [OF assms z])
  show "tables (snd (update_gui t (Conds v a) updates s)) t = Some rows"
    by (rule update_results_unmatched(2) [OF assms z])
  show "tables (snd (update_terminal t (Conds v a) updates s)) t = Some rows"
    by (rule update_results_unmatched(3) [OF assms z])
qed

theorem update_delete_counts_witness:
  "fst (delete_gui ''t'' [(''a'', VInt 1)] (init\<lparr>tables := [''t'' \<mapsto> [[(''a'', VInt 1)], [(''a'', VInt 2)], [(''a'', VInt 1)], [(''a'', VInt 3)], [(''a'', VInt 4)]]]\<rparr>)) = Inr (RInt 2)
   \<and> tables (snd (delete_gui ''t'' [(''a'', VInt 1)] (init\<lparr>tables := [''t'' \<mapsto> [[(''a'', VInt 1)], [(''a'', VInt 2)], [(''a'', VInt 1)], [(''a'', VInt 3)], [(''a'', VInt 4)]]]\<rparr>))) ''t''
       = Some [[(''a'', VInt 2)], [(''a'', VInt 3)], [(''a'', VInt 4)]]
   \<and> fst (update_gui ''t'' (Conds [(''a'', VInt 9)] None) [(''b'', VInt 0)] (init\<lparr>tables := [''t'' \<mapsto> [[(''a'', VInt 1)], [(''a'', VInt 2)], [(''a'', VInt 1)], [(''a'', VInt 3)], [(''a'', VInt 4)]]]\<rparr>)) = Inr (RInt 0)
   \<and> fst (update_gui ''t'' (Conds [(''a'', VInt 1)] (Some 0)) [(''a'', VInt 2)] (init\<lparr>tables := [''t'' \<mapsto> [[(''a'', VInt 1)], [(''a'', VInt 1)], [(''a'', VInt 2)]]]\<rparr>)) = Inr (RInt 2)
   \<and> tables (snd (update_gui ''t'' (Conds [(''a'', VInt 1)] (Some 0)) [(''a'', VInt 2)] (init\<lparr>tables := [''t'' \<mapsto> [[(''a'', VInt 1)], [(''a'', VInt 1)], [(''a'', VInt 2)]]]\<rparr>))) ''t''
       = Some [[(''a'', VInt 2)], [(''a'', VInt 1)], [(''a'', VInt 2)]]
   \<and> tables (snd (update_gui ''t'' (Conds [(''a'', VInt 1)] None) [(''a'', VInt 2)] (init\<lparr>tables := [''t'' \<mapsto> [[(''a'', VInt 1)], [(''a'', VInt 1)], [(''a'', VInt 2)]]]\<rparr>))) ''t''
       = Some [[(''a'', VInt 2)], [(''a'', VInt 2)], [(''a'', VInt 2)]]"
proof -
  have h5: "tables (init\<lparr>tables := [''t'' \<mapsto> [[(''a'', VInt 1)], [(''a'', VInt 2)], [(''a'', VInt 1)], [(''a'', VInt 3)], [(''a'', VInt 4)]]]\<rparr>) ''t'' = Some [[(''a'', VInt 1)], [(''a'', VInt 2)], [(''a'', VInt 1)], [(''a'', VInt 3)], [(''a'', VInt 4)]]" by simp
  have h3: "tables (init\<lparr>tables := [''t'' \<mapsto> [[(''a'', VInt 1)], [(''a'', VInt 1)], [(''a'', VInt 2)]]]\<rparr>) ''t'' = Some [[(''a'', VInt 1)], [(''a'', VInt 1)], [(''a'', VInt 2)]]" by simp
  have w5: "path_of ''t'' \<notin> unwritable (init\<lparr>tables := [''t'' \<mapsto> [[(''a'', VInt 1)], [(''a'', VInt 2)], [(''a'', VInt 1)], [(''a'', VInt 3)], [(''a'', VInt 4)]]]\<rparr>)" by (simp add: init_def)
  have w3: "path_of ''t'' \<notin> unwritable (init\<lparr>tables := [''t'' \<mapsto> [[(''a'', VInt 1)], [(''a'', VInt 1)], [(''a'', VInt 2)]]]\<rparr>)" by (simp add: init_def)
  have k: "\<not> keyword_clash [(''a'', VInt 1)]" by (simp add: keyword_clash_def)
  have m: "matches [(''a'', VInt x)] [(''a'', VInt y)] = (y = x)" for x y
    by (simp add: matches_def py_eq_def dict_get_def)
  have au: "apply_updates [(''a'', VInt 2)] [(''a'', VInt y)] = [(''a'', VInt 2)]" for y
    by (simp add: apply_updates_def)
  note d = update_delete_counts [OF h5 w5, of "[(''a'', VInt 1)]" "[(''a'', VInt 9)]" None
      "[(''b'', VInt 0)]" 0]
  from d k have d1: "fst (delete_gui ''t'' [(''a'', VInt 1)] (init\<lparr>tables := [''t'' \<mapsto> [[(''a'', VInt 1)], [(''a'', VInt 2)], [(''a'', VInt 1)], [(''a'', VInt 3)], [(''a'', VInt 4)]]]\<rparr>)) = Inr (RInt 2)"
    by (simp add: m)
  from d k have d2: "tables (snd (delete_gui ''t'' [(''a'', VInt 1)] (init\<lparr>tables := [''t'' \<mapsto> [[(''a'', VInt 1)], [(''a'', VInt 2)], [(''a'', VInt 1)], [(''a'', VInt 3)], [(''a'', VInt 4)]]]\<rparr>))) ''t''
       = Some [[(''a'', VInt 2)], [(''a'', VInt 3)], [(''a'', VInt 4)]]"
    by (simp add: m)
  from d have d3: "fst (update_gui ''t'' (Conds [(''a'', VInt 9)] None) [(''b'', VInt 0)] (init\<lparr>tables := [''t'' \<mapsto> [[(''a'', VInt 1)], [(''a'', VInt 2)], [(''a'', VInt 1)], [(''a'', VInt 3)], [(''a'', VInt 4)]]]\<rparr>))
       = Inr (RInt 0)"
    by (simp add: m)
  note a = update_delete_counts [OF h3 w3, of "[]" "[(''a'', VInt 1)]" None
      "[(''a'', VInt 2)]" 0]
  from a have a1: "fst (update_gui ''t'' (Conds [(''a'', VInt 1)] (Some 0)) [(''a'', VInt 2)] (init\<lparr>tables := [''t'' \<mapsto> [[(''a'', VInt 1)], [(''a'', VInt 1)], [(''a'', VInt 2)]]]\<rparr>))
       = Inr (RInt 2)"
    by (simp add: m au)
  from a have a2: "tables (snd (update_gui ''t'' (Conds [(''a'', VInt 1)] (Some 0))
         [(''a'', VInt 2)] (init\<lparr>tables := [''t'' \<mapsto> [[(''a'', VInt 1)], [(''a'', VInt 1)], [(''a'', VInt 2)]]]\<rparr>))) ''t''
       = Some [[(''a'', VInt 2)], [(''a'', VInt 1)], [(''a'', VInt 2)]]"
    by (simp add: m au)
  from a have a3: "tables (snd (update_gui ''t'' (Conds [(''a'', VInt 1)] None)
         [(''a'', VInt 2)] (init\<lparr>tables := [''t'' \<mapsto> [[(''a'', VInt 1)], [(''a'', VInt 1)], [(''a'', VInt 2)]]]\<rparr>))) ''t''
       = Some [[(''a'', VInt 2)], [(''a'', VInt 2)], [(''a'', VInt 2)]]"
    by (simp add: m au)
  from d1 d2 d3 a1 a2 a3 show ?thesis by (intro conjI)
qed

section \<open>Transactions\<close>

lemma save_terminal_transactions:
  "save_terminal t s = (r, s') \<Longrightarrow> transactions s' = transactions s"
  by (auto simp: save_terminal_def split: option.splits if_splits)

lemma save_gui_transactions:
  "save_gui t s = (r, s') \<Longrightarrow> transactions s' = transactions s"
  by (auto simp: save_gui_def split: option.splits if_splits)

lemma py_print_fields:
  "tables (py_print m s) = tables s"
  "schemas (py_print m s) = schemas s"
  "transactions (py_print m s) = transactions s"
  "disk (py_print m s) = disk s"
  "unwritable (py_print m s) = unwritable s"
  by (simp_all add: py_print_def)

lemma insert_terminal_transactions:
  "transactions (snd (insert_terminal t rec key s)) = transactions s"
  by (auto simp: insert_terminal_def Let_def py_print_fields
           split: sum.splits option.splits prod.splits dest: save_terminal_transactions)

lemma insert_gui_transactions:
  "transactions (snd (insert_gui t rec key s)) = transactions s"
  by (auto simp: insert_gui_def Let_def
           split: sum.splits option.splits prod.splits dest: save_gui_transactions)

lemma update_terminal_transactions:
  "transactions (snd (update_terminal t c u s)) = transactions s"
  by (auto simp: update_terminal_def py_print_fields
           split: sum.splits prod.splits dest: save_terminal_transactions)

lemma update_gui_transactions:
  "transactions (snd (update_gui t c u s)) = transactions s"
  by (auto simp: update_gui_def split: sum.splits prod.splits dest: save_gui_transactions)

lemma delete_terminal_transactions:
  "transactions (snd (delete_terminal t c s)) = transactions s"
  by (auto simp: delete_terminal_def Let_def py_print_fields
           split: sum.splits prod.splits if_splits dest: save_terminal_transactions)

lemma delete_gui_transactions:
  "transactions (snd (delete_gui t c s)) = transactions s"
  by (auto simp: delete_gui_def Let_def split: sum.splits prod.splits if_splits
           dest: save_gui_transactions)

lemma row_mutation_terminal:
  "is_row_mutation c \<Longrightarrow>
   \<exists>out s'. exec_terminal c s = Some (out, s') \<and> transactions s' = transactions s"
  using insert_terminal_transactions update_terminal_transactions delete_terminal_transactions
  by (cases c) (simp_all add: prod_eq_iff)

lemma row_mutation_gui:
  "is_row_mutation c \<Longrightarrow>
   \<exists>out s'. exec_gui c s = Some (out, s') \<and> transactions s' = transactions s"
  using insert_gui_transactions update_gui_transactions delete_gui_transactions
  by (cases c) (simp_all add: prod_eq_iff)

lemma run_terminal_row_mutations:
  "\<forall>c\<in>set cs. is_row_mutation c \<Longrightarrow>
   \<exists>s'. run_terminal cs s = Some s' \<and> transactions s' = transactions s"
proof (induction cs arbitrary: s)
  case Nil
  then show ?case by simp
next
  case (Cons c cs)
  from Cons.prems have "is_row_mutation c" by simp
  from row_mutation_terminal [OF this, of s]
  obtain out s1 where s1: "exec_terminal c s = Some (out, s1)" "transactions s1 = transactions s"
    by auto
  from Cons.prems have "\<forall>c\<in>set cs. is_row_mutation c" by simp
  from Cons.IH [OF this, of s1] s1 show ?case by simp
qed

lemma run_gui_row_mutations:
  "\<forall>c\<in>set cs. is_row_mutation c \<Longrightarrow>
   \<exists>s'. run_gui cs s = Some s' \<and> transactions s' = transactions s"
proof (induction cs arbitrary: s)
  case Nil
  then show ?case by simp
next
  case (Cons c cs)
  from Cons.prems have "is_row_mutation c" by simp
  from row_mutation_gui [OF this, of s]
  obtain out s1 where s1: "exec_gui c s = Some (out, s1)" "transactions s1 = transactions s"
    by auto
  from Cons.prems have "\<forall>c\<in>set cs. is_row_mutation c" by simp
  from Cons.IH [OF this, of s1] s1 show ?case by simp
qed


text \<open>
  Claim C6: for every table, in both engines, after \<open>begin_transaction\<close> and any sequence
  of \<open>insert\<close>, \<open>update\<close> and \<open>delete\<close> calls (on any table, whether they raise or
  not), \<open>rollback\<close> returns normally and leaves the table with exactly the rows it had at
  \<open>begin_transaction\<close>, and no pending snapshot. A second \<open>rollback\<close> then returns
  normally too and changes nothing in the engine (the terminal engine prints that no
  transaction is active).
\<close>

theorem rollback_restores_snapshot:
  assumes "tables s t = Some rows" and "\<forall>c\<in>set cs. is_row_mutation c"
  shows "(\<exists>s1 s2 s3.
            begin_transaction_terminal t s = (Inr RNone, s1)
          \<and> run_terminal cs s1 = Some s2
          \<and> rollback_terminal t s2 = (Inr RNone, s3)
          \<and> tables s3 t = Some rows \<and> transactions s3 t = None
          \<and> rollback_terminal t s3 = (Inr RNone, py_print (No_active_transaction t) s3))
       \<and> (\<exists>s1 s2 s3.
            begin_transaction_gui t s = (Inr RNone, s1)
          \<and> run_gui cs s1 = Some s2
          \<and> rollback_gui t s2 = (Inr RNone, s3)
          \<and> tables s3 t = Some rows \<and> transactions s3 t = None
          \<and> rollback_gui t s3 = (Inr RNone, s3))"
proof (rule conjI)
  let ?s1 = "py_print (Transaction_started t) (s\<lparr>transactions := (transactions s)(t \<mapsto> rows)\<rparr>)"
  have b: "begin_transaction_terminal t s = (Inr RNone, ?s1)"
    using assms(1) by (simp add: begin_transaction_terminal_def check_table_exists_def domIff)
  from run_terminal_row_mutations [OF assms(2), of ?s1]
  obtain s2 where r: "run_terminal cs ?s1 = Some s2" "transactions s2 = transactions ?s1"
    by auto
  then have snap: "transactions s2 t = Some rows"
    by (simp add: py_print_fields)
  let ?s3 = "py_print (Transaction_rolled_back t)
               (s2\<lparr>tables := (tables s2)(t \<mapsto> rows), transactions := (transactions s2)(t := None)\<rparr>)"
  have rb: "rollback_terminal t s2 = (Inr RNone, ?s3)"
    using snap by (simp add: rollback_terminal_def)
  have t3: "tables ?s3 t = Some rows" and x3: "transactions ?s3 t = None"
    by (simp_all add: py_print_fields)
  have again: "rollback_terminal t ?s3 = (Inr RNone, py_print (No_active_transaction t) ?s3)"
    using x3 by (simp add: rollback_terminal_def)
  from b r(1) rb t3 x3 again
  show "\<exists>s1 s2 s3.
            begin_transaction_terminal t s = (Inr RNone, s1)
          \<and> run_terminal cs s1 = Some s2
          \<and> rollback_terminal t s2 = (Inr RNone, s3)
          \<and> tables s3 t = Some rows \<and> transactions s3 t = None
          \<and> rollback_terminal t s3 = (Inr RNone, py_print (No_active_transaction t) s3)"
    by (intro exI conjI)
next
  let ?s1 = "s\<lparr>transactions := (transactions s)(t \<mapsto> rows)\<rparr>"
  have b: "begin_transaction_gui t s = (Inr RNone, ?s1)"
    using assms(1) by (simp add: begin_transaction_gui_def check_table_exists_def domIff)
  from run_gui_row_mutations [OF assms(2), of ?s1]
  obtain s2 where r: "run_gui cs ?s1 = Some s2" "transactions s2 = transactions ?s1"
    by auto
  then have snap: "transactions s2 t = Some rows"
    by simp
  let ?s3 = "s2\<lparr>tables := (tables s2)(t \<mapsto> rows), transactions := (transactions s2)(t := None)\<rparr>"
  have rb: "rollback_gui t s2 = (Inr RNone, ?s3)"
    using snap by (simp add: rollback_gui_def)
  have t3: "tables ?s3 t = Some rows" and x3: "transactions ?s3 t = None"
    by simp_all
  have again: "rollback_gui t ?s3 = (Inr RNone, ?s3)"
    using x3 by (simp add: rollback_gui_def)
  from b r(1) rb t3 x3 again
  show "\<exists>s1 s2 s3.
            begin_transaction_gui t s = (Inr RNone, s1)
          \<and> run_gui cs s1 = Some s2
          \<and> rollback_gui t s2 = (Inr RNone, s3)
          \<and> tables s3 t = Some rows \<and> transactions s3 t = None
          \<and> rollback_gui t s3 = (Inr RNone, s3)"
    by (intro exI conjI)
qed


theorem rollback_restores_snapshot_witness:
  "map_option length
     (tables (the (run_gui [Insert ''t'' [(''a'', VInt 2)] None, Insert ''t'' [(''a'', VInt 3)] None, Insert ''t'' [(''a'', VInt 4)] None] (snd (begin_transaction_gui ''t'' (init\<lparr>tables := [''t'' \<mapsto> [[(''a'', VInt 1)]]]\<rparr>))))) ''t'') = Some 4
   \<and> tables (snd (rollback_gui ''t''
        (the (run_gui [Insert ''t'' [(''a'', VInt 2)] None, Insert ''t'' [(''a'', VInt 3)] None, Insert ''t'' [(''a'', VInt 4)] None] (snd (begin_transaction_gui ''t'' (init\<lparr>tables := [''t'' \<mapsto> [[(''a'', VInt 1)]]]\<rparr>))))))) ''t''
       = Some [[(''a'', VInt 1)]]
   \<and> tables (snd (rollback_terminal ''t''
        (the (run_terminal [Insert ''t'' [(''a'', VInt 2)] None, Insert ''t'' [(''a'', VInt 3)] None, Insert ''t'' [(''a'', VInt 4)] None] (snd (begin_transaction_terminal ''t'' (init\<lparr>tables := [''t'' \<mapsto> [[(''a'', VInt 1)]]]\<rparr>))))))) ''t''
       = Some [[(''a'', VInt 1)]]"
proof -
  have h1: "tables (init\<lparr>tables := [''t'' \<mapsto> [[(''a'', VInt 1)]]]\<rparr>) ''t'' = Some [[(''a'', VInt 1)]]" by simp
  have h2: "\<forall>c\<in>set [Insert ''t'' [(''a'', VInt 2)] None, Insert ''t'' [(''a'', VInt 3)] None, Insert ''t'' [(''a'', VInt 4)] None]. is_row_mutation c" by simp
  have four: "map_option length
     (tables (the (run_gui [Insert ''t'' [(''a'', VInt 2)] None, Insert ''t'' [(''a'', VInt 3)] None, Insert ''t'' [(''a'', VInt 4)] None] (snd (begin_transaction_gui ''t'' (init\<lparr>tables := [''t'' \<mapsto> [[(''a'', VInt 1)]]]\<rparr>))))) ''t'') = Some 4"
    by (simp add: begin_transaction_gui_def check_table_exists_def insert_gui_def
          validate_record_gui_def truthy_key_def save_gui_def init_def)
  from rollback_restores_snapshot [OF h1 h2]
  obtain s1 s2 s3 u1 u2 u3 where
    g: "begin_transaction_gui ''t'' (init\<lparr>tables := [''t'' \<mapsto> [[(''a'', VInt 1)]]]\<rparr>) = (Inr RNone, s1)" "run_gui [Insert ''t'' [(''a'', VInt 2)] None, Insert ''t'' [(''a'', VInt 3)] None, Insert ''t'' [(''a'', VInt 4)] None] s1 = Some s2"
       "rollback_gui ''t'' s2 = (Inr RNone, s3)" "tables s3 ''t'' = Some [[(''a'', VInt 1)]]"
    and t: "begin_transaction_terminal ''t'' (init\<lparr>tables := [''t'' \<mapsto> [[(''a'', VInt 1)]]]\<rparr>) = (Inr RNone, u1)" "run_terminal [Insert ''t'' [(''a'', VInt 2)] None, Insert ''t'' [(''a'', VInt 3)] None, Insert ''t'' [(''a'', VInt 4)] None] u1 = Some u2"
       "rollback_terminal ''t'' u2 = (Inr RNone, u3)" "tables u3 ''t'' = Some [[(''a'', VInt 1)]]"
    by (elim conjE exE)
  have a: "tables (snd (rollback_gui ''t''
        (the (run_gui [Insert ''t'' [(''a'', VInt 2)] None, Insert ''t'' [(''a'', VInt 3)] None, Insert ''t'' [(''a'', VInt 4)] None] (snd (begin_transaction_gui ''t'' (init\<lparr>tables := [''t'' \<mapsto> [[(''a'', VInt 1)]]]\<rparr>))))))) ''t''
       = Some [[(''a'', VInt 1)]]"
    by (simp only: g snd_conv option.sel)
  have b: "tables (snd (rollback_terminal ''t''
        (the (run_terminal [Insert ''t'' [(''a'', VInt 2)] None, Insert ''t'' [(''a'', VInt 3)] None, Insert ''t'' [(''a'', VInt 4)] None] (snd (begin_transaction_terminal ''t'' (init\<lparr>tables := [''t'' \<mapsto> [[(''a'', VInt 1)]]]\<rparr>))))))) ''t''
       = Some [[(''a'', VInt 1)]]"
    by (simp only: t snd_conv option.sel)
  from four a b show ?thesis by (intro conjI)
qed

text \<open>
  Claim C7 says that \<open>drop_table\<close> discards the pending snapshot of the table. Neither
  engine does: \<open>drop_table\<close> deletes the entry of \<open>tables\<close>, the entry of \<open>schemas\<close> and
  the file, and leaves \<open>_transactions\<close> as it is. After \<open>create_table\<close>,
  \<open>begin_transaction\<close> and \<open>drop_table\<close> the snapshot is still pending, and a
  \<open>rollback\<close> puts the dropped table back into \<open>tables\<close>.
\<close>

theorem drop_table_keeps_pending_snapshot:
  "transactions (snd (drop_table_gui ''t''
      (snd (begin_transaction_gui ''t'' (snd (create_table_gui ''t'' None init)))))) ''t''
     = Some []
   \<and> tables (snd (drop_table_gui ''t''
      (snd (begin_transaction_gui ''t'' (snd (create_table_gui ''t'' None init)))))) ''t''
     = None
   \<and> tables (snd (rollback_gui ''t'' (snd (drop_table_gui ''t''
      (snd (begin_transaction_gui ''t'' (snd (create_table_gui ''t'' None init)))))))) ''t''
     = Some []
   \<and> transactions (snd (drop_table_terminal ''t''
      (snd (begin_transaction_terminal ''t'' (snd (create_table_terminal ''t'' None init)))))) ''t''
     = Some []
   \<and> tables (snd (rollback_terminal ''t'' (snd (drop_table_terminal ''t''
      (snd (begin_transaction_terminal ''t'' (snd (create_table_terminal ''t'' None init)))))))) ''t''
     = Some []"
  by (simp add: create_table_gui_def create_table_terminal_def truthy_schema_def
        save_gui_def save_terminal_def begin_transaction_gui_def begin_transaction_terminal_def
        drop_table_gui_def drop_table_terminal_def rollback_gui_def rollback_terminal_def
        check_table_exists_def py_print_def init_def Let_def)

section \<open>Writing a table and loading it again\<close>

lemma json_val_val_json: "json_val (val_json v) = Some v"
  by (cases v) simp_all

lemma json_row_row_json: "json_row (row_json r) = Some r"
  unfolding row_json_def json_row.simps
  by (induction r) (auto simp: json_val_val_json)

lemma json_rows_rows_json: "json_rows (rows_json rs) = Some rs"
  unfolding rows_json_def json_rows.simps
  by (induction rs) (auto simp: json_row_row_json)

lemma type_of_name_type_name:
  "ty \<noteq> Some Py_bool \<Longrightarrow>
   type_of_name (case ty of Some ty' \<Rightarrow> JStr (type_name ty') | None \<Rightarrow> JNull) = ty"
proof (cases ty)
  case None
  then show ?thesis by (simp add: type_of_name_def)
next
  case (Some ty')
  assume "ty \<noteq> Some Py_bool"
  with Some show ?thesis by (cases ty') (simp_all add: type_of_name_def)
qed

lemma schema_round_trip:
  "\<forall>(k, ty)\<in>set sch. ty \<noteq> Some Py_bool \<Longrightarrow>
   map (\<lambda>(k, v). (k, type_of_name v))
     (map (\<lambda>(k, v). (k, case v of Some ty \<Rightarrow> JStr (type_name ty) | None \<Rightarrow> JNull)) sch) = sch"
  by (induction sch) (auto simp: type_of_name_type_name)

lemma load_data_gui_current_doc:
  assumes "\<forall>(k, ty)\<in>set sch. ty \<noteq> Some Py_bool"
  shows "load_data_gui t (current_doc sch rows) s =
     Some (Inr RNone, s\<lparr>schemas := (schemas s)(t \<mapsto> sch), tables := (tables s)(t \<mapsto> rows)\<rparr>)"
  using schema_round_trip [OF assms]
  by (simp add: current_doc_def schema_json_def json_get_def json_rows_rows_json)

text \<open>
  Claim C1, as the spec states it: for every table with a bound schema, \<open>_save\<close> followed
  by \<open>load_table\<close> (GUI engine) gives back the schema and the rows. It fails for a schema
  with a column of kind \<open>bool\<close>: \<open>_save\<close> writes the name \<open>"bool"\<close>, and \<open>load_table\<close>
  knows the names \<open>"int"\<close>, \<open>"float"\<close> and \<open>"str"\<close> only, so the column comes back with
  no kind.
\<close>

theorem boolean_kind_lost_on_load:
  "schemas (init\<lparr>tables := [''t'' \<mapsto> [[(''ok'', VBool True)]]],
                 schemas := [''t'' \<mapsto> [(''ok'', Some Py_bool)]]\<rparr>) ''t''
     = Some [(''ok'', Some Py_bool)]
   \<and> map_option (\<lambda>r. schemas (snd r) ''t'')
       (load_table_gui ''t'' (snd (save_gui ''t''
          (init\<lparr>tables := [''t'' \<mapsto> [[(''ok'', VBool True)]]],
                schemas := [''t'' \<mapsto> [(''ok'', Some Py_bool)]]\<rparr>))))
     = Some (Some [(''ok'', None)])"
  by (simp add: save_gui_def load_table_gui_def current_doc_def schema_json_def rows_json_def
        row_json_def json_get_def type_of_name_def init_def)

text \<open>
  Claim C1, amended: for every table of the GUI engine with a bound schema whose kinds are
  among Integer, Float, Text and Any, and any row sequence, a \<open>_save\<close> whose file can be
  opened for writing succeeds, and \<open>load_table\<close> of the file it wrote succeeds and leaves
  a schema and a row sequence equal to the ones before the write (the schemas and the
  tables of the engine are as before). The same holds for \<open>load_table\<close> in any engine
  state that holds the written file: it binds the table to that schema and to those rows
  and changes nothing else.
\<close>

theorem save_then_load_round_trip:
  assumes "tables s t = Some rows" and "schemas s t = Some sch"
    and "\<forall>(k, ty)\<in>set sch. ty \<noteq> Some Py_bool"
    and "path_of t \<notin> unwritable s"
  shows "\<exists>s1 s2. save_gui t s = (Inr (), s1)
           \<and> load_table_gui t s1 = Some (Inr RNone, s2)
           \<and> schemas s2 t = Some sch \<and> tables s2 t = Some rows
           \<and> schemas s2 = schemas s \<and> tables s2 = tables s
           \<and> (\<forall>s'. disk s' (path_of t) = disk s1 (path_of t) \<longrightarrow>
                 load_table_gui t s' =
                   Some (Inr RNone,
                         s'\<lparr>schemas := (schemas s')(t \<mapsto> sch), tables := (tables s')(t \<mapsto> rows)\<rparr>))"
proof -
  let ?s1 = "s\<lparr>disk := (disk s)(path_of t \<mapsto> Doc (current_doc sch rows))\<rparr>"
  let ?s2 = "?s1\<lparr>schemas := (schemas ?s1)(t \<mapsto> sch), tables := (tables ?s1)(t \<mapsto> rows)\<rparr>"
  have a: "save_gui t s = (Inr (), ?s1)"
    using assms(1,2,4) by (simp add: save_gui_def)
  have b: "load_table_gui t ?s1 = Some (Inr RNone, ?s2)"
    using load_data_gui_current_doc [OF assms(3), of t rows ?s1]
    by (simp add: load_table_gui_def)
  have c: "schemas ?s2 t = Some sch" "tables ?s2 t = Some rows" by simp_all
  have d: "schemas ?s2 = schemas s" "tables ?s2 = tables s"
    using assms(1,2) by (simp_all add: map_upd_triv)
  have e: "\<forall>s'. disk s' (path_of t) = disk ?s1 (path_of t) \<longrightarrow>
                 load_table_gui t s' =
                   Some (Inr RNone,
                         s'\<lparr>schemas := (schemas s')(t \<mapsto> sch), tables := (tables s')(t \<mapsto> rows)\<rparr>)"
  proof (intro allI impI)
    fix s' :: mdb
    assume "disk s' (path_of t) = disk ?s1 (path_of t)"
    then have "disk s' (path_of t) = Some (Doc (current_doc sch rows))" by simp
    then show "load_table_gui t s' =
                   Some (Inr RNone,
                         s'\<lparr>schemas := (schemas s')(t \<mapsto> sch), tables := (tables s')(t \<mapsto> rows)\<rparr>)"
      using load_data_gui_current_doc [OF assms(3), of t rows s']
      by (simp add: load_table_gui_def)
  qed
  from a b c d e show ?thesis by (intro exI conjI)
qed

theorem save_then_load_round_trip_witness:
  "map_option (\<lambda>r. (fst r, schemas (snd r) ''t'', tables (snd r) ''t''))
     (load_table_gui ''t'' (snd (save_gui ''t''
        (init\<lparr>tables := [''t'' \<mapsto> [[(''id'', VInt 1), (''w'', VFloat (1/2)), (''n'', VNone)]]],
              schemas := [''t'' \<mapsto> [(''id'', Some Py_int), (''w'', Some Py_float), (''n'', None)]]\<rparr>))))
   = Some (Inr RNone,
           Some [(''id'', Some Py_int), (''w'', Some Py_float), (''n'', None)],
           Some [[(''id'', VInt 1), (''w'', VFloat (1/2)), (''n'', VNone)]])"
proof -
  let ?rows = "[[(''id'', VInt 1), (''w'', VFloat (1/2)), (''n'', VNone)]]"
  let ?sch = "[(''id'', Some Py_int), (''w'', Some Py_float), (''n'', None)]"
  let ?s = "init\<lparr>tables := [''t'' \<mapsto> ?rows], schemas := [''t'' \<mapsto> ?sch]\<rparr>"
  have h1: "tables ?s ''t'' = Some ?rows" by simp
  have h2: "schemas ?s ''t'' = Some ?sch" by simp
  have h3: "\<forall>(k, ty)\<in>set ?sch. ty \<noteq> Some Py_bool" by simp
  have h4: "path_of ''t'' \<notin> unwritable ?s" by (simp add: init_def)
  from save_then_load_round_trip [OF h1 h2 h3 h4]
  obtain s1 s2 where g: "save_gui ''t'' ?s = (Inr (), s1)"
      "load_table_gui ''t'' s1 = Some (Inr RNone, s2)"
      "schemas s2 ''t'' = Some ?sch" "tables s2 ''t'' = Some ?rows"
    by (elim conjE exE)
  show ?thesis
    by (simp only: g snd_conv fst_conv option.map)
qed

section \<open>The shape of what is written\<close>

lemma kind_names_schema:
  "list_all (\<lambda>(c, v). is_kind_name_or_null v)
     (map (\<lambda>(k, v). (k, case v of Some ty \<Rightarrow> JStr (type_name ty) | None \<Rightarrow> JNull)) sch)"
proof (induction sch)
  case Nil
  then show ?case by simp
next
  case (Cons p sch)
  obtain k v where p: "p = (k, v)" by (cases p)
  have "is_kind_name_or_null (case v of Some ty \<Rightarrow> JStr (type_name ty) | None \<Rightarrow> JNull)"
  proof (cases v)
    case None
    then show ?thesis by simp
  next
    case (Some ty)
    then show ?thesis by (cases ty) simp_all
  qed
  with Cons p show ?case by simp
qed

lemma current_doc_is_current_shape: "is_current_shape (current_doc sch rows) rows"
  by (simp add: current_doc_def schema_json_def kind_names_schema)

lemma current_shape_not_list: "is_current_shape d rows \<Longrightarrow> d \<noteq> JArr xs"
  by (cases d) auto

lemma save_gui_writes:
  assumes "save_gui t s = (r, s')"
  shows "tables s' = tables s \<and> (disk s' p = disk s p \<or> written_current s' p)"
proof (cases "tables s t")
  case None
  with assms show ?thesis by (auto simp: save_gui_def)
next
  case (Some rows)
  show ?thesis
  proof (cases "path_of t \<in> unwritable s")
    case True
    with assms Some show ?thesis by (auto simp: save_gui_def)
  next
    case False
    with assms Some have s': "s' = s\<lparr>disk := (disk s)(path_of t \<mapsto>
        Doc (current_doc (case schemas s t of None \<Rightarrow> [] | Some sch \<Rightarrow> sch) rows))\<rparr>"
      by (auto simp: save_gui_def)
    show ?thesis
    proof (cases "p = path_of t")
      case True
      have "written_current s' p"
        using Some by (simp add: written_current_def s' True path_of_def current_doc_is_current_shape)
      then show ?thesis by (simp add: s')
    next
      case False
      then show ?thesis by (simp add: s')
    qed
  qed
qed


lemma save_gui_success:
  assumes "save_gui t s = (Inr u, s')"
  shows "tables s' = tables s \<and> written_current s' (path_of t)"
proof (cases "tables s t")
  case None
  with assms show ?thesis by (simp add: save_gui_def)
next
  case (Some rows)
  with assms have s': "s' = s\<lparr>disk := (disk s)(path_of t \<mapsto>
        Doc (current_doc (case schemas s t of None \<Rightarrow> [] | Some sch \<Rightarrow> sch) rows))\<rparr>"
    by (auto simp: save_gui_def split: if_splits)
  have "written_current s' (path_of t)"
    using Some by (simp add: written_current_def s' path_of_def current_doc_is_current_shape)
  then show ?thesis by (simp add: s')
qed

lemma create_table_gui_writes:
  assumes "create_table_gui t schema s = (out, s')"
  shows "disk s' p = disk s p \<or> written_current s' p"
proof (cases "t \<in> dom (tables s)")
  case True
  with assms show ?thesis by (simp add: create_table_gui_def)
next
  case False
  let ?s1 = "s\<lparr>tables := (tables s)(t \<mapsto> [])\<rparr>"
  let ?s2 = "if truthy_schema schema then ?s1\<lparr>schemas := (schemas ?s1)(t \<mapsto> the schema)\<rparr> else ?s1"
  have d2: "disk ?s2 = disk s" by simp
  obtain r s3 where sv: "save_gui t ?s2 = (r, s3)" by (cases "save_gui t ?s2")
  from assms False sv have "s' = s3"
    by (auto simp: create_table_gui_def Let_def split: sum.splits)
  with save_gui_writes [OF sv, of p] d2 show ?thesis by auto
qed

lemma create_table_gui_success:
  assumes "create_table_gui t schema s = (Inr r, s')"
  shows "written_current s' (path_of t)"
proof (cases "t \<in> dom (tables s)")
  case True
  with assms show ?thesis by (simp add: create_table_gui_def)
next
  case False
  let ?s1 = "s\<lparr>tables := (tables s)(t \<mapsto> [])\<rparr>"
  let ?s2 = "if truthy_schema schema then ?s1\<lparr>schemas := (schemas ?s1)(t \<mapsto> the schema)\<rparr> else ?s1"
  obtain r3 s3 where sv: "save_gui t ?s2 = (r3, s3)" by (cases "save_gui t ?s2")
  from assms False sv have "s' = s3 \<and> r3 = Inr ()"
    by (auto simp: create_table_gui_def Let_def split: sum.splits)
  with save_gui_success [of t ?s2 "()" s3] sv show ?thesis by simp
qed


lemma insert_gui_writes:
  assumes "insert_gui t rec key s = (out, s')"
  shows "disk s' p = disk s p \<or> written_current s' p"
proof -
  let ?s1 = "s\<lparr>tables := (tables s)(t \<mapsto> the (tables s t) @ [rec])\<rparr>"
  have d1: "disk ?s1 = disk s" by simp
  obtain r3 s3 where sv: "save_gui t ?s1 = (r3, s3)" by (cases "save_gui t ?s1")
  from assms sv have "s' = s \<or> s' = s3"
    by (auto simp: insert_gui_def Let_def split: sum.splits option.splits)
  with save_gui_writes [OF sv, of p] d1 show ?thesis by auto
qed

lemma insert_gui_success:
  assumes "insert_gui t rec key s = (Inr r, s')"
  shows "written_current s' (path_of t)"
proof -
  let ?s1 = "s\<lparr>tables := (tables s)(t \<mapsto> the (tables s t) @ [rec])\<rparr>"
  obtain r3 s3 where sv: "save_gui t ?s1 = (r3, s3)" by (cases "save_gui t ?s1")
  from assms sv have "s' = s3 \<and> r3 = Inr ()"
    by (auto simp: insert_gui_def Let_def split: sum.splits option.splits)
  with save_gui_success [of t ?s1 "()" s3] sv show ?thesis by simp
qed

lemma update_gui_writes:
  assumes "update_gui t c u s = (out, s')"
  shows "disk s' p = disk s p \<or> written_current s' p"
proof -
  let ?s1 = "s\<lparr>tables := (tables s)(t \<mapsto> fst (update_loop (aliased_row c (the (tables s t)))
        (conds_value c) u (the (tables s t)) 0 0))\<rparr>"
  have d1: "disk ?s1 = disk s" by simp
  obtain r3 s3 where sv: "save_gui t ?s1 = (r3, s3)" by (cases "save_gui t ?s1")
  from assms sv have "s' = s \<or> s' = s3"
    by (auto simp: update_gui_def Let_def split: sum.splits prod.splits)
  with save_gui_writes [OF sv, of p] d1 show ?thesis by auto
qed

lemma update_gui_success:
  assumes "update_gui t c u s = (Inr r, s')"
  shows "written_current s' (path_of t)"
proof -
  let ?s1 = "s\<lparr>tables := (tables s)(t \<mapsto> fst (update_loop (aliased_row c (the (tables s t)))
        (conds_value c) u (the (tables s t)) 0 0))\<rparr>"
  obtain r3 s3 where sv: "save_gui t ?s1 = (r3, s3)" by (cases "save_gui t ?s1")
  from assms sv have "s' = s3 \<and> r3 = Inr ()"
    by (auto simp: update_gui_def Let_def split: sum.splits prod.splits)
  with save_gui_success [of t ?s1 "()" s3] sv show ?thesis by simp
qed

lemma delete_gui_writes:
  assumes "delete_gui t c s = (out, s')"
  shows "disk s' p = disk s p \<or> written_current s' p"
proof -
  let ?s1 = "s\<lparr>tables := (tables s)(t \<mapsto> filter (\<lambda>r. \<not> matches c r) (the (tables s t)))\<rparr>"
  have d1: "disk ?s1 = disk s" by simp
  obtain r3 s3 where sv: "save_gui t ?s1 = (r3, s3)" by (cases "save_gui t ?s1")
  from assms sv have "s' = s \<or> s' = s3"
    by (auto simp: delete_gui_def Let_def split: sum.splits if_splits)
  with save_gui_writes [OF sv, of p] d1 show ?thesis by auto
qed

lemma delete_gui_success:
  assumes "delete_gui t c s = (Inr r, s')"
  shows "written_current s' (path_of t)"
proof -
  let ?s1 = "s\<lparr>tables := (tables s)(t \<mapsto> filter (\<lambda>r. \<not> matches c r) (the (tables s t)))\<rparr>"
  obtain r3 s3 where sv: "save_gui t ?s1 = (r3, s3)" by (cases "save_gui t ?s1")
  from assms sv have "s' = s3 \<and> r3 = Inr ()"
    by (auto simp: delete_gui_def Let_def split: sum.splits if_splits)
  with save_gui_success [of t ?s1 "()" s3] sv show ?thesis by simp
qed

lemma commit_gui_writes:
  assumes "commit_gui t s = (out, s')"
  shows "disk s' p = disk s p \<or> written_current s' p"
proof -
  let ?s1 = "s\<lparr>transactions := (transactions s)(t := None)\<rparr>"
  have d1: "disk ?s1 = disk s" by simp
  obtain r3 s3 where sv: "save_gui t ?s1 = (r3, s3)" by (cases "save_gui t ?s1")
  from assms sv have "s' = s \<or> s' = s3"
    by (auto simp: commit_gui_def split: sum.splits option.splits)
  with save_gui_writes [OF sv, of p] d1 show ?thesis by auto
qed

lemma backup_table_gui_writes:
  assumes "backup_table_gui t stamp s = (out, s')"
  shows "disk s' p = disk s p \<or> written_current s' p"
proof (cases "tables s t")
  case None
  with assms show ?thesis
    by (simp add: backup_table_gui_def check_table_exists_def domIff)
next
  case (Some rows)
  show ?thesis
  proof (cases "Backup_file t stamp \<in> unwritable s")
    case True
    with assms Some show ?thesis
      by (auto simp: backup_table_gui_def check_table_exists_def domIff)
  next
    case False
    with assms Some have s': "s' = s\<lparr>disk := (disk s)(Backup_file t stamp \<mapsto>
        Doc (current_doc (case schemas s t of None \<Rightarrow> [] | Some sch \<Rightarrow> sch) rows))\<rparr>"
      by (auto simp: backup_table_gui_def check_table_exists_def domIff)
    show ?thesis
    proof (cases "p = Backup_file t stamp")
      case True
      have "written_current s' p"
        using Some by (simp add: written_current_def s' True current_doc_is_current_shape)
      then show ?thesis by simp
    next
      case False
      then show ?thesis by (simp add: s')
    qed
  qed
qed

lemma drop_table_gui_writes:
  assumes "drop_table_gui t s = (out, s')"
  shows "disk s' p = disk s p \<or> disk s' p = None"
  using assms by (auto simp: drop_table_gui_def split: sum.splits if_splits)

lemma load_data_gui_disk:
  "load_data_gui t data s = Some (out, s') \<Longrightarrow> disk s' = disk s"
  by (cases data) (auto split: option.splits json.splits)

lemma load_table_gui_disk:
  "load_table_gui t s = Some (out, s') \<Longrightarrow> disk s' = disk s"
  by (auto simp: load_table_gui_def split: option.splits stored.splits dest: load_data_gui_disk)

lemma begin_rollback_gui_disk:
  "begin_transaction_gui t s = (out, s') \<Longrightarrow> disk s' = disk s"
  "rollback_gui t s = (out, s') \<Longrightarrow> disk s' = disk s"
  by (auto simp: begin_transaction_gui_def rollback_gui_def split: sum.splits option.splits)


text \<open>
  Claim C3, as the spec states it: every persistence write emits the current shape and a
  bare row list is never written. The terminal engine's \<open>_save\<close> dumps
  \<open>self.tables[table_name]\<close>: after \<open>create_table\<close> the file holds the empty list, after
  an \<open>insert\<close> the list of the one row.
\<close>

theorem terminal_writes_bare_list:
  "disk (snd (create_table_terminal ''t'' (Some [(''id'', Some Py_int)]) init)) (path_of ''t'')
     = Some (Doc (JArr []))
   \<and> disk (snd (insert_terminal ''t'' [(''id'', VInt 1)] None
        (snd (create_table_terminal ''t'' (Some [(''id'', Some Py_int)]) init)))) (path_of ''t'')
     = Some (Doc (JArr [JObj [(''id'', JInt 1)]]))"
  by (simp add: create_table_terminal_def insert_terminal_def truthy_schema_def truthy_key_def
        check_table_exists_def validate_record_terminal_def save_terminal_def py_print_def
        rows_json_def row_json_def init_def Let_def)

text \<open>
  Claim C3, amended: for every call of a client on the GUI engine, every state and every
  file, the call leaves the file as it was, deletes it (\<open>drop_table\<close>), or leaves in it
  the current shape of the live rows of a table: an object with the fields \<open>schema\<close>
  (columns mapped to kind names or \<open>null\<close>) and \<open>rows\<close>, never a bare row list. A
  \<open>create_table\<close>, \<open>insert\<close>, \<open>update\<close> or \<open>delete\<close> that returns normally leaves
  the file of its table in that shape. \<open>_save\<close> of the terminal engine writes the bare
  list of the rows whenever it can open the file, and raises \<open>OSError\<close> with the file
  as it was otherwise.
\<close>

theorem gui_writes_current_shape:
  assumes "exec_gui c s = Some (out, s')"
  shows "(disk s' p = disk s p \<or> disk s' p = None \<or> written_current s' p)
       \<and> ((c = Create_table t schema \<or> c = Insert t rec key \<or> c = Update t (Conds conditions alias) updates
            \<or> c = Delete t conditions) \<longrightarrow> out = Inr r \<longrightarrow> written_current s' (path_of t))
       \<and> (tables s t = Some rows \<longrightarrow>
            save_terminal t s =
              (if path_of t \<in> unwritable s then (Inl (Cannot_open (path_of t)), s)
               else (Inr (), s\<lparr>disk := (disk s)(path_of t \<mapsto> Doc (JArr (map row_json rows)))\<rparr>)))"
proof (intro conjI)
  show "disk s' p = disk s p \<or> disk s' p = None \<or> written_current s' p"
  proof (cases c)
    case (Create_table t' sch')
    with assms create_table_gui_writes [of t' sch' s out s' p] show ?thesis by auto
  next
    case (Load_table t')
    with assms load_table_gui_disk [of t' s out s'] show ?thesis by auto
  next
    case (Drop_table t')
    with assms drop_table_gui_writes [of t' s out s' p] show ?thesis by auto
  next
    case (Insert t' rec' key')
    with assms insert_gui_writes [of t' rec' key' s out s' p] show ?thesis by auto
  next
    case (Select t' c')
    with assms show ?thesis by auto
  next
    case (Update t' c' u')
    with assms update_gui_writes [of t' c' u' s out s' p] show ?thesis by auto
  next
    case (Delete t' c')
    with assms delete_gui_writes [of t' c' s out s' p] show ?thesis by auto
  next
    case (Backup_table t' stamp')
    with assms backup_table_gui_writes [of t' stamp' s out s' p] show ?thesis by auto
  next
    case (Begin_transaction t')
    with assms begin_rollback_gui_disk(1) [of t' s out s'] show ?thesis by auto
  next
    case (Rollback t')
    with assms begin_rollback_gui_disk(2) [of t' s out s'] show ?thesis by auto
  next
    case (Commit t')
    with assms commit_gui_writes [of t' s out s' p] show ?thesis by auto
  qed
next
  show "(c = Create_table t schema \<or> c = Insert t rec key \<or> c = Update t (Conds conditions alias) updates
            \<or> c = Delete t conditions) \<longrightarrow> out = Inr r \<longrightarrow> written_current s' (path_of t)"
    using assms create_table_gui_success [of t schema s r s']
      insert_gui_success [of t rec key s r s'] update_gui_success [of t "Conds conditions alias" updates s r s']
      delete_gui_success [of t conditions s r s']
    by auto
next
  show "tables s t = Some rows \<longrightarrow>
            save_terminal t s =
              (if path_of t \<in> unwritable s then (Inl (Cannot_open (path_of t)), s)
               else (Inr (), s\<lparr>disk := (disk s)(path_of t \<mapsto> Doc (JArr (map row_json rows)))\<rparr>))"
    by (simp add: save_terminal_def rows_json_def)
qed

theorem gui_writes_current_shape_witness:
  "exec_gui (Insert ''t'' [(''id'', VInt 1)] None)
      (init\<lparr>tables := [''t'' \<mapsto> []], schemas := [''t'' \<mapsto> [(''id'', Some Py_int)]]\<rparr>)
     = Some (Inr RNone,
         init\<lparr>tables := [''t'' \<mapsto> [[(''id'', VInt 1)]]],
               schemas := [''t'' \<mapsto> [(''id'', Some Py_int)]],
               disk := [path_of ''t'' \<mapsto> Doc (JObj [(''schema'', JObj [(''id'', JStr ''int'')]),
                                                    (''rows'', JArr [JObj [(''id'', JInt 1)]])])]\<rparr>)
   \<and> written_current
        (init\<lparr>tables := [''t'' \<mapsto> [[(''id'', VInt 1)]]],
               schemas := [''t'' \<mapsto> [(''id'', Some Py_int)]],
               disk := [path_of ''t'' \<mapsto> Doc (JObj [(''schema'', JObj [(''id'', JStr ''int'')]),
                                                    (''rows'', JArr [JObj [(''id'', JInt 1)]])])]\<rparr>)
        (path_of ''t'')"
proof -
  let ?s = "init\<lparr>tables := [''t'' \<mapsto> []], schemas := [''t'' \<mapsto> [(''id'', Some Py_int)]]\<rparr>"
  let ?s' = "init\<lparr>tables := [''t'' \<mapsto> [[(''id'', VInt 1)]]],
               schemas := [''t'' \<mapsto> [(''id'', Some Py_int)]],
               disk := [path_of ''t'' \<mapsto> Doc (JObj [(''schema'', JObj [(''id'', JStr ''int'')]),
                                                    (''rows'', JArr [JObj [(''id'', JInt 1)]])])]\<rparr>"
  have h: "exec_gui (Insert ''t'' [(''id'', VInt 1)] None) ?s = Some (Inr RNone, ?s')"
    by (simp add: insert_gui_def truthy_key_def check_table_exists_def validate_record_gui_def
          save_gui_def current_doc_def schema_json_def rows_json_def row_json_def init_def)
  from gui_writes_current_shape [OF h, of "path_of ''t''" "''t''" None "[(''id'', VInt 1)]" None
      "[]" None "[]" RNone "[]"]
  have "written_current ?s' (path_of ''t'')" by simp
  with h show ?thesis by (intro conjI)
qed

section \<open>Format detection on load\<close>

lemma infer_type_inferred_kind: "infer_type v = inferred_kind v"
  by (cases v) (simp_all add: infer_type_def)

text \<open>
  Claim C4, as the spec states it: load accepts a bare list and infers a schema from the
  first record, Integer, Float and Text giving that kind and anything else Any. The
  terminal engine's \<open>load_table\<close> stores the list and infers nothing: no schema is bound
  after it. The GUI engine's inference tests \<open>isinstance(v, int)\<close> first, so a Boolean
  in the first record gives the kind Integer, not Any.
\<close>

theorem load_without_inference_and_boolean_as_integer:
  "map_option (\<lambda>r. (fst r, tables (snd r) ''t'', schemas (snd r) ''t''))
     (load_table_terminal ''t'' (init\<lparr>disk := [path_of ''t'' \<mapsto> Doc (JArr [JObj [(''a'', JInt 1)]])]\<rparr>))
     = Some (Inr RNone, Some [[(''a'', VInt 1)]], None)
   \<and> map_option (\<lambda>r. (fst r, tables (snd r) ''t'', schemas (snd r) ''t''))
     (load_table_gui ''t'' (init\<lparr>disk := [path_of ''t'' \<mapsto> Doc (JArr [JObj [(''a'', JBool True)]])]\<rparr>))
     = Some (Inr RNone, Some [[(''a'', VBool True)]], Some [(''a'', Some Py_int)])"
  by (simp add: load_table_terminal_def load_table_gui_def infer_type_def py_print_def init_def)


text \<open>
  Claim C4, amended: for every persisted file, \<open>load_table\<close> of the GUI engine detects
  the format. A bare list of records is accepted, the rows are stored and a schema is
  inferred from the first record (an Integer or a Boolean gives Integer, a Float gives
  Float, a Text gives Text, \<open>null\<close> gives Any; the empty list gives the empty schema).
  An object whose \<open>schema\<close> is an object and whose \<open>rows\<close> is a list of records (a
  missing field counts as empty) is accepted, the kind names \<open>int\<close>, \<open>float\<close> and
  \<open>str\<close> read as these kinds and anything else as Any. Any other top-level shape
  (\<open>null\<close>, a Boolean, a number, a string) fails with the \<open>ValueError\<close> for an
  unsupported format and leaves the state as it was. \<open>load_table\<close> of the terminal
  engine stores the rows of a bare list, binds no schema, and never raises that error.
\<close>

theorem load_table_gui_formats:
  assumes "disk s (path_of t) = Some (Doc data)"
  shows "(data = JArr xs \<longrightarrow> json_rows data = Some rows \<longrightarrow>
            load_table_gui t s =
              Some (Inr RNone,
                s\<lparr>tables := (tables s)(t \<mapsto> rows),
                  schemas := (schemas s)(t \<mapsto>
                    (case rows of [] \<Rightarrow> []
                     | first # others \<Rightarrow> map (\<lambda>(k, v). (k, inferred_kind v)) first))\<rparr>))
       \<and> (data = JObj kvs \<longrightarrow> json_get kvs ''schema'' (JObj []) = JObj schema_data \<longrightarrow>
            json_rows (json_get kvs ''rows'' (JArr [])) = Some rows \<longrightarrow>
            load_table_gui t s =
              Some (Inr RNone,
                s\<lparr>schemas := (schemas s)(t \<mapsto> map (\<lambda>(k, v). (k, type_of_name v)) schema_data),
                  tables := (tables s)(t \<mapsto> rows)\<rparr>))
       \<and> (data = JNull \<or> data = JBool b \<or> data = JInt i \<or> data = JFloat r \<or> data = JStr x \<longrightarrow>
            load_table_gui t s = Some (Inl Unsupported_format, s)
            \<and> exception_class Unsupported_format = ValueError)
       \<and> (json_rows data = Some rows \<longrightarrow>
            load_table_terminal t s =
              Some (Inr RNone, py_print (Loaded t) (s\<lparr>tables := (tables s)(t \<mapsto> rows)\<rparr>)))
       \<and> load_table_terminal t s \<noteq> Some (Inl Unsupported_format, s')"
proof (intro conjI impI)
  assume "data = JArr xs" and "json_rows data = Some rows"
  then show "load_table_gui t s =
              Some (Inr RNone,
                s\<lparr>tables := (tables s)(t \<mapsto> rows),
                  schemas := (schemas s)(t \<mapsto>
                    (case rows of [] \<Rightarrow> []
                     | first # others \<Rightarrow> map (\<lambda>(k, v). (k, inferred_kind v)) first))\<rparr>)"
    using assms
    by (cases rows) (simp_all add: load_table_gui_def infer_type_inferred_kind [abs_def])
next
  assume "data = JObj kvs" and "json_get kvs ''schema'' (JObj []) = JObj schema_data"
    and "json_rows (json_get kvs ''rows'' (JArr [])) = Some rows"
  then show "load_table_gui t s =
              Some (Inr RNone,
                s\<lparr>schemas := (schemas s)(t \<mapsto> map (\<lambda>(k, v). (k, type_of_name v)) schema_data),
                  tables := (tables s)(t \<mapsto> rows)\<rparr>)"
    using assms by (simp add: load_table_gui_def)
next
  assume "data = JNull \<or> data = JBool b \<or> data = JInt i \<or> data = JFloat r \<or> data = JStr x"
  then show "load_table_gui t s = Some (Inl Unsupported_format, s)"
    using assms by (auto simp: load_table_gui_def)
next
  show "exception_class Unsupported_format = ValueError" by simp
next
  assume "json_rows data = Some rows"
  then show "load_table_terminal t s =
              Some (Inr RNone, py_print (Loaded t) (s\<lparr>tables := (tables s)(t \<mapsto> rows)\<rparr>))"
    using assms by (simp add: load_table_terminal_def)
next
  show "load_table_terminal t s \<noteq> Some (Inl Unsupported_format, s')"
    by (simp add: load_table_terminal_def split: option.splits stored.splits)
qed

theorem load_table_gui_formats_witness:
  "map_option (\<lambda>r. (fst r, tables (snd r) ''t'', schemas (snd r) ''t'')) (load_table_gui ''t'' (init\<lparr>disk := [path_of ''t'' \<mapsto> Doc (JArr [JObj [(''a'', JInt 1), (''b'', JStr ''x''), (''c'', JNull)], JObj [(''a'', JFloat (1/2))]])]\<rparr>))
     = Some (Inr RNone,
             Some [[(''a'', VInt 1), (''b'', VStr ''x''), (''c'', VNone)], [(''a'', VFloat (1/2))]],
             Some [(''a'', Some Py_int), (''b'', Some Py_str), (''c'', None)])
   \<and> map_option (\<lambda>r. (fst r, tables (snd r) ''t'', schemas (snd r) ''t'')) (load_table_gui ''t'' (init\<lparr>disk := [path_of ''t'' \<mapsto> Doc (JObj [(''schema'', JObj [(''a'', JStr ''int''), (''b'', JNull)]), (''rows'', JArr [JObj [(''a'', JInt 1), (''b'', JStr ''x'')]])])]\<rparr>))
     = Some (Inr RNone, Some [[(''a'', VInt 1), (''b'', VStr ''x'')]],
             Some [(''a'', Some Py_int), (''b'', None)])
   \<and> load_table_gui ''t'' (init\<lparr>disk := [path_of ''t'' \<mapsto> Doc (JStr ''hello'')]\<rparr>) = Some (Inl Unsupported_format, (init\<lparr>disk := [path_of ''t'' \<mapsto> Doc (JStr ''hello'')]\<rparr>))"
proof -
  have l: "disk (init\<lparr>disk := [path_of ''t'' \<mapsto> Doc (JArr [JObj [(''a'', JInt 1), (''b'', JStr ''x''), (''c'', JNull)], JObj [(''a'', JFloat (1/2))]])]\<rparr>) (path_of ''t'') = Some (Doc (JArr [JObj [(''a'', JInt 1), (''b'', JStr ''x''), (''c'', JNull)], JObj [(''a'', JFloat (1/2))]]))"
    by simp
  have c: "disk (init\<lparr>disk := [path_of ''t'' \<mapsto> Doc (JObj [(''schema'', JObj [(''a'', JStr ''int''), (''b'', JNull)]), (''rows'', JArr [JObj [(''a'', JInt 1), (''b'', JStr ''x'')]])])]\<rparr>) (path_of ''t'') = Some (Doc (JObj [(''schema'', JObj [(''a'', JStr ''int''), (''b'', JNull)]), (''rows'', JArr [JObj [(''a'', JInt 1), (''b'', JStr ''x'')]])]))"
    by simp
  have o: "disk (init\<lparr>disk := [path_of ''t'' \<mapsto> Doc (JStr ''hello'')]\<rparr>) (path_of ''t'') = Some (Doc (JStr ''hello''))"
    by simp
  have a1: "map_option (\<lambda>r. (fst r, tables (snd r) ''t'', schemas (snd r) ''t'')) (load_table_gui ''t'' (init\<lparr>disk := [path_of ''t'' \<mapsto> Doc (JArr [JObj [(''a'', JInt 1), (''b'', JStr ''x''), (''c'', JNull)], JObj [(''a'', JFloat (1/2))]])]\<rparr>))
     = Some (Inr RNone,
             Some [[(''a'', VInt 1), (''b'', VStr ''x''), (''c'', VNone)], [(''a'', VFloat (1/2))]],
             Some [(''a'', Some Py_int), (''b'', Some Py_str), (''c'', None)])"
    using load_table_gui_formats [OF l,
        of "[JObj [(''a'', JInt 1), (''b'', JStr ''x''), (''c'', JNull)], JObj [(''a'', JFloat (1/2))]]"
           "[[(''a'', VInt 1), (''b'', VStr ''x''), (''c'', VNone)], [(''a'', VFloat (1/2))]]"
           "[]" "[]" True 0 0 "[]" init]
    by simp
  have a2: "map_option (\<lambda>r. (fst r, tables (snd r) ''t'', schemas (snd r) ''t'')) (load_table_gui ''t'' (init\<lparr>disk := [path_of ''t'' \<mapsto> Doc (JObj [(''schema'', JObj [(''a'', JStr ''int''), (''b'', JNull)]), (''rows'', JArr [JObj [(''a'', JInt 1), (''b'', JStr ''x'')]])])]\<rparr>))
     = Some (Inr RNone, Some [[(''a'', VInt 1), (''b'', VStr ''x'')]],
             Some [(''a'', Some Py_int), (''b'', None)])"
    using load_table_gui_formats [OF c, of "[]" "[[(''a'', VInt 1), (''b'', VStr ''x'')]]"
           "[(''schema'', JObj [(''a'', JStr ''int''), (''b'', JNull)]), (''rows'', JArr [JObj [(''a'', JInt 1), (''b'', JStr ''x'')]])]"
           "[(''a'', JStr ''int''), (''b'', JNull)]" True 0 0 "[]" init]
    by (simp add: json_get_def type_of_name_def)
  have a3: "load_table_gui ''t'' (init\<lparr>disk := [path_of ''t'' \<mapsto> Doc (JStr ''hello'')]\<rparr>) = Some (Inl Unsupported_format, (init\<lparr>disk := [path_of ''t'' \<mapsto> Doc (JStr ''hello'')]\<rparr>))"
    using load_table_gui_formats [OF o, of "[]" "[]" "[]" "[]" True 0 0 "''hello''" init]
    by simp
  from a1 a2 a3 show ?thesis by (intro conjI)
qed

section \<open>The two engines side by side\<close>

lemma validate_columns_same:
  "validate_columns_terminal sch rec = validate_columns_gui sch rec"
  by (induction sch rec rule: validate_columns_terminal.induct)
     (auto split: option.splits)

lemma validate_record_same:
  "validate_record_terminal t rec s = validate_record_gui t rec s"
  by (simp add: validate_record_terminal_def validate_record_gui_def validate_columns_same
           split: option.splits)

lemma in_memory_simps:
  "in_memory (py_print m s) = in_memory s"
  "in_memory (s\<lparr>disk := d\<rparr>) = in_memory s"
  by (simp_all add: in_memory_def py_print_def)

lemma agree_after_save:
  assumes "in_memory s1 = in_memory s2" and "unwritable s1 = unwritable s2"
    and "tables s2 t \<noteq> None \<or> path_of t \<notin> unwritable s2"
  shows "agree (case save_terminal t s1 of (Inl e, s3) \<Rightarrow> (Inl e, s3)
                  | (Inr u, s3) \<Rightarrow> (Inr r1, py_print m s3))
               (case save_gui t s2 of (Inl e, s3) \<Rightarrow> (Inl e, s3) | (Inr u, s3) \<Rightarrow> (Inr r2, s3))"
proof -
  from assms have t: "tables s1 t = tables s2 t" by (simp add: in_memory_def)
  show ?thesis
    using assms t
    by (cases "tables s2 t"; cases "path_of t \<in> unwritable s2")
       (auto simp: agree_def save_terminal_def save_gui_def in_memory_def py_print_def)
qed

lemma create_table_agree:
  "agree (create_table_terminal t schema s) (create_table_gui t schema s)"
proof (cases "t \<in> dom (tables s)")
  case True
  then show ?thesis by (simp add: create_table_terminal_def create_table_gui_def agree_def)
next
  case False
  then show ?thesis
    unfolding create_table_terminal_def create_table_gui_def Let_def
    by (simp add: agree_after_save)
qed


lemma drop_table_agree:
  "agree (drop_table_terminal t s) (drop_table_gui t s)"
  by (simp add: drop_table_terminal_def drop_table_gui_def agree_def in_memory_def py_print_def
        split: sum.splits)

lemma insert_agree:
  "agree (insert_terminal t rec key s) (insert_gui t rec key s)"
proof (cases "check_table_exists t s")
  case (Inl e)
  then show ?thesis by (simp add: insert_terminal_def insert_gui_def agree_def)
next
  case ex: (Inr u)
  show ?thesis
  proof (cases "validate_record_gui t rec s")
    case (Inl e)
    with ex show ?thesis
      by (simp add: insert_terminal_def insert_gui_def agree_def validate_record_same)
  next
    case va: (Inr u')
    show ?thesis
    proof (cases "if truthy_key key then find_duplicate (the key) rec (the (tables s t)) else None")
      case None
      with ex va show ?thesis
        unfolding insert_terminal_def insert_gui_def Let_def validate_record_same
        by (simp add: agree_after_save)
    next
      case (Some e)
      with ex va show ?thesis
        unfolding insert_terminal_def insert_gui_def Let_def validate_record_same
        by (simp add: agree_def)
    qed
  qed
qed

lemma update_agree:
  "agree (update_terminal t c u s) (update_gui t c u s)"
proof (cases "check_table_exists t s")
  case (Inl e)
  then show ?thesis by (simp add: update_terminal_def update_gui_def agree_def)
next
  case (Inr x)
  obtain rows' n where l: "update_loop (aliased_row c (the (tables s t))) (conds_value c) u
      (the (tables s t)) 0 0 = (rows', n)"
    by (cases "update_loop (aliased_row c (the (tables s t))) (conds_value c) u
      (the (tables s t)) 0 0")
  from Inr l show ?thesis
    unfolding update_terminal_def update_gui_def
    by (simp add: agree_after_save)
qed

lemma delete_agree:
  "agree (delete_terminal t c s) (delete_gui t c s)"
proof (cases "keyword_clash c")
  case True
  then show ?thesis by (simp add: delete_terminal_def delete_gui_def agree_def)
next
  case no_clash: False
  show ?thesis
  proof (cases "check_table_exists t s")
    case (Inl e)
    with no_clash show ?thesis by (simp add: delete_terminal_def delete_gui_def agree_def)
  next
    case (Inr x)
    with no_clash show ?thesis
      unfolding delete_terminal_def delete_gui_def Let_def
      by (simp add: agree_after_save)
  qed
qed

lemma backup_table_agree:
  "agree (backup_table_terminal t stamp s) (backup_table_gui t stamp s)"
  by (simp add: backup_table_terminal_def backup_table_gui_def agree_def in_memory_def
        py_print_def split: sum.splits)

lemma begin_transaction_agree:
  "agree (begin_transaction_terminal t s) (begin_transaction_gui t s)"
  by (simp add: begin_transaction_terminal_def begin_transaction_gui_def agree_def in_memory_def
        py_print_def split: sum.splits)

lemma rollback_agree:
  "agree (rollback_terminal t s) (rollback_gui t s)"
  by (simp add: rollback_terminal_def rollback_gui_def agree_def in_memory_def
        py_print_def split: option.splits)

lemma commit_agree:
  assumes "transactions s t = None \<or> tables s t \<noteq> None \<or> path_of t \<notin> unwritable s"
  shows "agree (commit_terminal t s) (commit_gui t s)"
proof (cases "transactions s t")
  case None
  then show ?thesis
    by (simp add: commit_terminal_def commit_gui_def agree_def in_memory_def py_print_def)
next
  case (Some snapshot)
  with assms show ?thesis
    unfolding commit_terminal_def commit_gui_def
    by (simp add: agree_after_save)
qed

lemma commit_unwritable_dropped:
  assumes "transactions s t \<noteq> None" and "tables s t = None" and "path_of t \<in> unwritable s"
  shows "commit_terminal t s =
           (Inl (Cannot_open (path_of t)), s\<lparr>transactions := (transactions s)(t := None)\<rparr>)"
    and "commit_gui t s = (Inl (Key_error t), s\<lparr>transactions := (transactions s)(t := None)\<rparr>)"
  using assms
  by (auto simp: commit_terminal_def commit_gui_def save_terminal_def save_gui_def)


text \<open>
  Claim C5, as the spec states it: the two \<open>MDB\<close> classes are behaviourally equivalent:
  same in-memory state, same file content, same returned value or error, for every
  operation. They are not. After \<open>create_table\<close> the terminal engine's file holds the
  bare list and the GUI engine's file the object with \<open>schema\<close> and \<open>rows\<close>; \<open>delete\<close>
  returns nothing in the terminal engine and the count in the GUI engine; \<open>select\<close>
  returns rows in the terminal engine and does not exist in the GUI engine.
\<close>

theorem engines_differ:
  "disk (snd (create_table_terminal ''t'' None init)) (path_of ''t'') = Some (Doc (JArr []))
   \<and> disk (snd (create_table_gui ''t'' None init)) (path_of ''t'')
       = Some (Doc (JObj [(''schema'', JObj []), (''rows'', JArr [])]))
   \<and> fst (delete_terminal ''t'' [] (init\<lparr>tables := [''t'' \<mapsto> [[(''a'', VInt 1)]]]\<rparr>)) = Inr RNone
   \<and> fst (delete_gui ''t'' [] (init\<lparr>tables := [''t'' \<mapsto> [[(''a'', VInt 1)]]]\<rparr>)) = Inr (RInt 1)
   \<and> exec_terminal (Select ''t'' []) (init\<lparr>tables := [''t'' \<mapsto> [[(''a'', VInt 1)]]]\<rparr>) = Some (Inr (RRows [[(''a'', VInt 1)]]), (init\<lparr>tables := [''t'' \<mapsto> [[(''a'', VInt 1)]]]\<rparr>))
   \<and> exec_gui (Select ''t'' []) (init\<lparr>tables := [''t'' \<mapsto> [[(''a'', VInt 1)]]]\<rparr>) = Some (Inl (Attribute_error ''select''), (init\<lparr>tables := [''t'' \<mapsto> [[(''a'', VInt 1)]]]\<rparr>))"
  by (simp add: create_table_terminal_def create_table_gui_def truthy_schema_def
        save_terminal_def save_gui_def current_doc_def schema_json_def rows_json_def
        delete_terminal_def delete_gui_def select_terminal_def check_table_exists_def
        keyword_clash_def matches_def py_print_def init_def Let_def)

text \<open>
  Claim C5, amended: for \<open>create_table\<close>, \<open>drop_table\<close>, \<open>insert\<close>, \<open>update\<close>,
  \<open>delete\<close>, \<open>backup_table\<close>, \<open>begin_transaction\<close>, \<open>rollback\<close> and \<open>commit\<close>,
  from every identical starting state and arguments, both engines end the call, leave the
  same in-memory state (tables, schemas and pending snapshots), and either both return or
  both raise the same exception. The one call where the exceptions differ is a \<open>commit\<close>
  of a pending snapshot whose table has been dropped and whose file cannot be opened for
  writing: the terminal engine opens the file first and raises \<open>OSError\<close>, the GUI engine
  looks the table up first and raises \<open>KeyError\<close>. (The file content, the value returned
  by \<open>update\<close> and \<open>delete\<close>, \<open>load_table\<close> and \<open>select\<close> differ between the
  engines.)
\<close>

theorem engines_agree_in_memory:
  assumes "\<forall>t. c \<noteq> Load_table t" and "\<forall>t conditions. c \<noteq> Select t conditions"
  shows "\<exists>a b. exec_terminal c s = Some a \<and> exec_gui c s = Some b
           \<and> tables (snd a) = tables (snd b) \<and> schemas (snd a) = schemas (snd b)
           \<and> transactions (snd a) = transactions (snd b)
           \<and> (if \<exists>t. c = Commit t \<and> transactions s t \<noteq> None \<and> tables s t = None
                       \<and> path_of t \<in> unwritable s
              then \<exists>t. c = Commit t \<and> fst a = Inl (Cannot_open (path_of t))
                       \<and> fst b = Inl (Key_error t)
              else \<forall>e. fst a = Inl e \<longleftrightarrow> fst b = Inl e)"
proof (cases "\<exists>t. c = Commit t \<and> transactions s t \<noteq> None \<and> tables s t = None
                       \<and> path_of t \<in> unwritable s")
  case True
  then obtain t where t: "c = Commit t" "transactions s t \<noteq> None" "tables s t = None"
      "path_of t \<in> unwritable s"
    by (elim conjE exE)
  note r = commit_unwritable_dropped [OF t(2) t(3) t(4)]
  show ?thesis
    using True t(1) r by simp
next
  case False
  have "\<exists>a b. exec_terminal c s = Some a \<and> exec_gui c s = Some b \<and> agree a b"
  proof (cases c)
    case (Create_table t schema)
    then show ?thesis by (simp add: create_table_agree)
  next
    case (Load_table t)
    with assms(1) show ?thesis by simp
  next
    case (Drop_table t)
    then show ?thesis by (simp add: drop_table_agree)
  next
    case (Insert t rec key)
    then show ?thesis by (simp add: insert_agree)
  next
    case (Select t conditions)
    with assms(2) show ?thesis by simp
  next
    case (Update t conditions updates)
    then show ?thesis by (simp add: update_agree)
  next
    case (Delete t conditions)
    then show ?thesis by (simp add: delete_agree)
  next
    case (Backup_table t stamp)
    then show ?thesis by (simp add: backup_table_agree)
  next
    case (Begin_transaction t)
    then show ?thesis by (simp add: begin_transaction_agree)
  next
    case (Rollback t)
    then show ?thesis by (simp add: rollback_agree)
  next
    case (Commit t)
    with False have "transactions s t = None \<or> tables s t \<noteq> None \<or> path_of t \<notin> unwritable s"
      by auto
    from commit_agree [OF this] Commit show ?thesis by simp
  qed
  then obtain a b where ab: "exec_terminal c s = Some a" "exec_gui c s = Some b" "agree a b"
    by (elim conjE exE)
  from ab(3) have m: "tables (snd a) = tables (snd b)" "schemas (snd a) = schemas (snd b)"
      "transactions (snd a) = transactions (snd b)" "\<forall>e. fst a = Inl e \<longleftrightarrow> fst b = Inl e"
    by (simp_all add: agree_def in_memory_def)
  show ?thesis
    using False ab(1,2) m
    by (intro exI [of _ a] exI [of _ b]) (simp only: if_False simp_thms)
qed

theorem engines_agree_in_memory_witness:
  "\<exists>a b. exec_terminal (Update ''t'' (Conds [(''a'', VInt 1)] None) [(''b'', VInt 2)]) (init\<lparr>tables := [''t'' \<mapsto> [[(''a'', VInt 1)]]]\<rparr>) = Some a
         \<and> exec_gui (Update ''t'' (Conds [(''a'', VInt 1)] None) [(''b'', VInt 2)]) (init\<lparr>tables := [''t'' \<mapsto> [[(''a'', VInt 1)]]]\<rparr>) = Some b
         \<and> tables (snd a) = tables (snd b) \<and> schemas (snd a) = schemas (snd b)
         \<and> transactions (snd a) = transactions (snd b)
         \<and> (\<forall>e. fst a = Inl e \<longleftrightarrow> fst b = Inl e)"
proof -
  have h1: "\<forall>t. Update ''t'' (Conds [(''a'', VInt 1)] None) [(''b'', VInt 2)] \<noteq> Load_table t" by simp
  have h2: "\<forall>t conditions. Update ''t'' (Conds [(''a'', VInt 1)] None) [(''b'', VInt 2)] \<noteq> Select t conditions"
    by simp
  show ?thesis
    using engines_agree_in_memory [OF h1 h2,
        of "init\<lparr>tables := [''t'' \<mapsto> [[(''a'', VInt 1)]]]\<rparr>"]
    by simp
qed
end
